theory Spec2Isabelle
  imports Main "HOL-Library.Word" "HOL-Library.Monad_Syntax" "HOL-Library.AList"
begin

unbundle bit_operations_syntax

section \<open>C strings, bytes and memory\<close>

text \<open>
  A byte is a \<^typ>\<open>char\<close>. A \<^verbatim>\<open>const char*\<close> argument (provider, event and field
  names) is modelled by the characters stored at the pointer: the C string it denotes
  stops before the first NUL, or at the end of the list. A function returns
  \<open>None\<close> where the C code has undefined behaviour (a write past the end of a pool
  block, a read through a pointer that addresses no block, a read past the end of a
  block) and \<open>Some r\<close> where it returns \<open>r\<close>.
\<close>

abbreviation (input) NUL :: char where
  "NUL \<equiv> CHR 0x00"

definition c_str :: "string \<Rightarrow> string" where
  "c_str s = takeWhile (\<lambda>c. c \<noteq> NUL) s"

definition strlen :: "string \<Rightarrow> nat" where
  "strlen s = length (c_str s)"

text \<open>The C string found in a memory region; reading on past the region is undefined.\<close>

definition region_str :: "string \<Rightarrow> string option" where
  "region_str r = (if NUL \<in> set r then Some (c_str r) else None)"

text \<open>Little-endian bytes of an unsigned value (x64).\<close>

primrec le_bytes :: "nat \<Rightarrow> nat \<Rightarrow> string" where
  "le_bytes 0 v = []"
| "le_bytes (Suc n) v = char_of v # le_bytes n (v div 256)"

type_synonym addr = nat

abbreviation (input) NULL :: addr where
  "NULL \<equiv> 0"

text \<open>
  Memory is a collection of blocks, each named by its base address: the pool blocks
  handed out by \<^verbatim>\<open>ExAllocatePoolWithTag\<close> and the objects the callers own.
\<close>

type_synonym memory = "(addr \<times> string) list"

definition load :: "memory \<Rightarrow> addr \<Rightarrow> string option" where
  "load m a = map_of m a"

definition fresh_addr :: "memory \<Rightarrow> addr" where
  "fresh_addr m = Suc (foldr max (map fst m) 0)"

text \<open>A block with \<open>bs\<close> written over it from offset \<open>off\<close>.\<close>

definition patch :: "string \<Rightarrow> nat \<Rightarrow> string \<Rightarrow> string" where
  "patch blk off bs = take off blk @ bs @ drop (off + length bs) blk"

text \<open>Writing \<open>bs\<close> at offset \<open>off\<close> of block \<open>a\<close>; undefined when it does not fit.\<close>

definition store :: "memory \<Rightarrow> addr \<Rightarrow> nat \<Rightarrow> string \<Rightarrow> memory option" where
  "store m a off bs =
     (case load m a of
        None \<Rightarrow> None
      | Some blk \<Rightarrow>
          if off + length bs \<le> length blk
          then Some (AList.update a (patch blk off bs) m)
          else None)"

definition memset0 :: "memory \<Rightarrow> addr \<Rightarrow> nat \<Rightarrow> memory option" where
  "memset0 m a n = store m a 0 (replicate n NUL)"

definition strcpy :: "memory \<Rightarrow> addr \<Rightarrow> nat \<Rightarrow> string \<Rightarrow> memory option" where
  "strcpy m a off s = store m a off (c_str s @ [NUL])"

section \<open>Kernel interfaces\<close>

text \<open>
  The status codes, \<^verbatim>\<open>PASSIVE_LEVEL\<close>, the descriptor types and the structures
  \<^verbatim>\<open>GUID\<close>, \<^verbatim>\<open>EVENT_DATA_DESCRIPTOR\<close> (16 bytes) and \<^verbatim>\<open>EVENT_DESCRIPTOR\<close>
  are those of the Windows driver headers. \<^verbatim>\<open>Data4\<close> of a GUID has eight bytes.
\<close>

type_synonym NTSTATUS = "32 word"

abbreviation (input) STATUS_SUCCESS :: NTSTATUS where
  "STATUS_SUCCESS \<equiv> 0"

abbreviation (input) STATUS_UNSUCCESSFUL :: NTSTATUS where
  "STATUS_UNSUCCESSFUL \<equiv> 0xC0000001"

abbreviation (input) PASSIVE_LEVEL :: nat where
  "PASSIVE_LEVEL \<equiv> 0"

record GUID =
  Data1 :: "32 word"
  Data2 :: "16 word"
  Data3 :: "16 word"
  Data4 :: "8 word list"

record EVENT_DATA_DESCRIPTOR =
  Ptr :: addr
  Size :: nat
  Type :: nat

abbreviation (input) EVENT_DATA_DESCRIPTOR_TYPE_NONE :: nat where
  "EVENT_DATA_DESCRIPTOR_TYPE_NONE \<equiv> 0"

abbreviation (input) EVENT_DATA_DESCRIPTOR_TYPE_EVENT_METADATA :: nat where
  "EVENT_DATA_DESCRIPTOR_TYPE_EVENT_METADATA \<equiv> 1"

abbreviation (input) EVENT_DATA_DESCRIPTOR_TYPE_PROVIDER_METADATA :: nat where
  "EVENT_DATA_DESCRIPTOR_TYPE_PROVIDER_METADATA \<equiv> 2"

text \<open>A descriptor after \<^verbatim>\<open>memset(&d, 0, sizeof d)\<close>, or value-initialised.\<close>

definition zero_descriptor :: EVENT_DATA_DESCRIPTOR where
  "zero_descriptor = \<lparr>Ptr = NULL, Size = 0, Type = EVENT_DATA_DESCRIPTOR_TYPE_NONE\<rparr>"

text \<open>\<^verbatim>\<open>EventDataDescCreate\<close>: the size is a \<^verbatim>\<open>ULONG\<close>; the reserved word, and
  with it the type, is cleared.\<close>

definition EventDataDescCreate :: "addr \<Rightarrow> nat \<Rightarrow> EVENT_DATA_DESCRIPTOR" where
  "EventDataDescCreate dataPtr dataSize =
     \<lparr>Ptr = dataPtr, Size = dataSize mod 2 ^ 32, Type = EVENT_DATA_DESCRIPTOR_TYPE_NONE\<rparr>"

record EVENT_DESCRIPTOR =
  Id' :: "16 word"
  Version :: "8 word"
  Channel :: "8 word"
  Level :: "8 word"
  Opcode :: "8 word"
  Task :: "16 word"
  Keyword :: "64 word"

record write_call =
  RegHandle :: nat
  EventDescriptor :: EVENT_DESCRIPTOR
  UserDataCount :: nat
  UserData :: "EVENT_DATA_DESCRIPTOR list"

text \<open>
  The kernel as the driver sees it. The answers of the external primitives are
  parameters: \<open>pool_grants n size\<close> says whether the \<open>n\<close>-th pool request, for
  \<open>size\<close> bytes, is granted; the \<open>etw_*_result\<close> fields give the status the tracing
  subsystem answers with. \<open>etw_registered\<close> and \<open>etw_written\<close> log the successful
  registrations and the calls of the write primitive. \<open>stack_above n\<close> is what the
  stack of the calling thread holds, when the \<open>n\<close>-th pool request is made, in the
  bytes that follow the local variable \<^verbatim>\<open>fieldValue\<close> of \<^verbatim>\<open>WriteEvent\<close>: the
  driver reads them when it copies more than the eight bytes of that variable, and what
  it finds there is not the driver's to say.
\<close>

record kernel =
  irql :: nat
  mem :: memory
  pool_calls :: nat
  pool_grants :: "nat \<Rightarrow> nat \<Rightarrow> bool"
  etw_register_result :: "GUID \<Rightarrow> NTSTATUS \<times> nat"
  etw_set_information_result :: "nat \<Rightarrow> string \<Rightarrow> NTSTATUS"
  etw_write_result :: "write_call \<Rightarrow> NTSTATUS"
  etw_registered :: "(GUID \<times> nat) list"
  etw_written :: "write_call list"
  stack_above :: "nat \<Rightarrow> string"

definition KeGetCurrentIrql :: "kernel \<Rightarrow> nat" where
  "KeGetCurrentIrql k = irql k"

text \<open>
  \<^verbatim>\<open>ExAllocatePoolWithTag\<close> returns a block at an address no block has yet, or NULL.
  Every caller below overwrites the whole block before reading it, so the initial
  content is not observable; it is taken as zeros.
\<close>

definition ExAllocatePoolWithTag :: "nat \<Rightarrow> kernel \<Rightarrow> addr \<times> kernel" where
  "ExAllocatePoolWithTag numberOfBytes k =
     (if pool_grants k (pool_calls k) numberOfBytes
      then (fresh_addr (mem k),
            k\<lparr>mem := (fresh_addr (mem k), replicate numberOfBytes NUL) # mem k,
              pool_calls := Suc (pool_calls k)\<rparr>)
      else (NULL, k\<lparr>pool_calls := Suc (pool_calls k)\<rparr>))"

definition EtwRegister :: "GUID \<Rightarrow> kernel \<Rightarrow> NTSTATUS \<times> nat \<times> kernel" where
  "EtwRegister providerId k =
     (let (status, regHandle) = etw_register_result k providerId
      in if status = STATUS_SUCCESS
         then (status, regHandle, k\<lparr>etw_registered := etw_registered k @ [(providerId, regHandle)]\<rparr>)
         else (status, regHandle, k))"

text \<open>\<^verbatim>\<open>EtwSetInformation\<close> reads \<open>len\<close> bytes at the pointer it is given.\<close>

definition EtwSetInformation :: "nat \<Rightarrow> addr \<Rightarrow> nat \<Rightarrow> kernel \<Rightarrow> NTSTATUS option" where
  "EtwSetInformation regHandle info len k =
     (case load (mem k) info of
        None \<Rightarrow> None
      | Some blk \<Rightarrow>
          if len \<le> length blk then Some (etw_set_information_result k regHandle (take len blk))
          else None)"

definition EtwWrite ::
  "nat \<Rightarrow> EVENT_DESCRIPTOR \<Rightarrow> nat \<Rightarrow> EVENT_DATA_DESCRIPTOR list \<Rightarrow> kernel \<Rightarrow> NTSTATUS \<times> kernel" where
  "EtwWrite regHandle eventDescriptor userDataCount userData k =
     (let c = \<lparr>RegHandle = regHandle, EventDescriptor = eventDescriptor,
                UserDataCount = userDataCount, UserData = userData\<rparr>
      in (etw_write_result k c, k\<lparr>etw_written := etw_written k @ [c]\<rparr>))"

section \<open>Field types\<close>

text \<open>The enumeration \<^verbatim>\<open>ETW_FIELD_TYPE\<close>; a field type travels as an \<^verbatim>\<open>int\<close>.\<close>

abbreviation (input) EtwFieldNull :: int where "EtwFieldNull \<equiv> 0"
abbreviation (input) EtwFieldUnicodeString :: int where "EtwFieldUnicodeString \<equiv> 1"
abbreviation (input) EtwFieldAnsiString :: int where "EtwFieldAnsiString \<equiv> 2"
abbreviation (input) EtwFieldInt8 :: int where "EtwFieldInt8 \<equiv> 3"
abbreviation (input) EtwFieldUInt8 :: int where "EtwFieldUInt8 \<equiv> 4"
abbreviation (input) EtwFieldInt16 :: int where "EtwFieldInt16 \<equiv> 5"
abbreviation (input) EtwFieldUInt16 :: int where "EtwFieldUInt16 \<equiv> 6"
abbreviation (input) EtwFieldInt32 :: int where "EtwFieldInt32 \<equiv> 7"
abbreviation (input) EtwFieldUInt32 :: int where "EtwFieldUInt32 \<equiv> 8"
abbreviation (input) EtwFieldInt64 :: int where "EtwFieldInt64 \<equiv> 9"
abbreviation (input) EtwFieldUInt64 :: int where "EtwFieldUInt64 \<equiv> 10"
abbreviation (input) EtwFieldFloat :: int where "EtwFieldFloat \<equiv> 11"
abbreviation (input) EtwFieldDouble :: int where "EtwFieldDouble \<equiv> 12"
abbreviation (input) EtwFieldBool32 :: int where "EtwFieldBool32 \<equiv> 13"
abbreviation (input) EtwFieldBinary :: int where "EtwFieldBinary \<equiv> 14"
abbreviation (input) EtwFieldGuid :: int where "EtwFieldGuid \<equiv> 15"
abbreviation (input) EtwFieldPointer :: int where "EtwFieldPointer \<equiv> 16"
abbreviation (input) EtwFieldFiletime :: int where "EtwFieldFiletime \<equiv> 17"
abbreviation (input) EtwFieldSystemTime :: int where "EtwFieldSystemTime \<equiv> 18"
abbreviation (input) EtwFieldSid :: int where "EtwFieldSid \<equiv> 19"
abbreviation (input) EtwFieldHexInt32 :: int where "EtwFieldHexInt32 \<equiv> 20"
abbreviation (input) EtwFieldHexInt64 :: int where "EtwFieldHexInt64 \<equiv> 21"
abbreviation (input) EtwFieldPid :: int where "EtwFieldPid \<equiv> EtwFieldInt32 OR push_bit 8 0x05"

text \<open>
  One entry of the variadic field list: the field's name, its type and its value, read
  with \<^verbatim>\<open>va_arg(args, size_t)\<close>. The list has \<^verbatim>\<open>numberOfFields\<close> entries.
\<close>

type_synonym field = "string \<times> int \<times> 64 word"

section \<open>EtwProviderEvent\<close>

text \<open>
  Modelled from the spec: the structures \<^verbatim>\<open>EventMetadata\<close> and
  \<^verbatim>\<open>ProviderMetadata\<close> (EtwLogger.h is not among the sources) have the layout the
  spec gives for the blobs: \<^verbatim>\<open>TotalLength\<close> in the first two bytes, for an event
  the \<^verbatim>\<open>Tag\<close> byte next, then the name (\<^verbatim>\<open>EventName\<close> at offset 3,
  \<^verbatim>\<open>ProviderName\<close> at offset 2).
\<close>

record EtwProviderEvent =
  m_eventMetadataDesc :: EVENT_DATA_DESCRIPTOR

definition EtwProviderEvent_new :: EtwProviderEvent where
  "EtwProviderEvent_new = \<lparr>m_eventMetadataDesc = zero_descriptor\<rparr>"

text \<open>The first loop of \<^verbatim>\<open>Initialize\<close>: \<^verbatim>\<open>eventMetadataLength\<close> is a \<^verbatim>\<open>uint16_t\<close>.\<close>

fun measure_fields :: "field list \<Rightarrow> 16 word \<Rightarrow> 16 word" where
  "measure_fields [] eventMetadataLength = eventMetadataLength"
| "measure_fields ((fieldName, fieldType, fieldValue) # args) eventMetadataLength =
     measure_fields args (eventMetadataLength + of_nat (strlen fieldName + 1 + 1))"

text \<open>The second loop: \<^verbatim>\<open>currentLocation\<close> is an offset into the block.\<close>

fun write_fields :: "field list \<Rightarrow> addr \<Rightarrow> nat \<Rightarrow> memory \<Rightarrow> memory option" where
  "write_fields [] eventMetadata currentLocation m = Some m"
| "write_fields ((fieldName, fieldType, fieldValue) # args) eventMetadata currentLocation m =
     do {
       m1 \<leftarrow> strcpy m eventMetadata currentLocation fieldName;
       m2 \<leftarrow> store m1 eventMetadata (currentLocation + strlen fieldName + 1) [char_of fieldType];
       write_fields args eventMetadata (currentLocation + strlen fieldName + 1 + 1) m2
     }"

definition eventMetadataHeaderLength :: "string \<Rightarrow> nat" where
  "eventMetadataHeaderLength eventName = strlen eventName + 1 + 2 + 1"

definition eventMetadataLength :: "string \<Rightarrow> field list \<Rightarrow> 16 word" where
  "eventMetadataLength eventName args =
     measure_fields args (of_nat (eventMetadataHeaderLength eventName))"

definition EtwProviderEvent_Initialize ::
  "EtwProviderEvent \<Rightarrow> string \<Rightarrow> field list \<Rightarrow> kernel
     \<Rightarrow> (NTSTATUS \<times> EtwProviderEvent \<times> kernel) option" where
  "EtwProviderEvent_Initialize this eventName args k =
     (let len = unat (eventMetadataLength eventName args);
          (eventMetadata, k1) = ExAllocatePoolWithTag len k
      in if eventMetadata = NULL then Some (STATUS_UNSUCCESSFUL, this, k1)
         else do {
           m1 \<leftarrow> memset0 (mem k1) eventMetadata len;
           m2 \<leftarrow> store m1 eventMetadata 0 (le_bytes 2 len);
           m3 \<leftarrow> store m2 eventMetadata 2 [NUL];
           m4 \<leftarrow> strcpy m3 eventMetadata 3 eventName;
           m5 \<leftarrow> write_fields args eventMetadata (eventMetadataHeaderLength eventName) m4;
           Some (STATUS_SUCCESS,
                 this\<lparr>m_eventMetadataDesc :=
                   (EventDataDescCreate eventMetadata len)
                     \<lparr>Type := EVENT_DATA_DESCRIPTOR_TYPE_EVENT_METADATA\<rparr>\<rparr>,
                 k1\<lparr>mem := m5\<rparr>)
         })"

text \<open>\<^verbatim>\<open>Name()\<close> points at offset 3 of the blob; its readers read the C string there.\<close>

definition Name :: "memory \<Rightarrow> EtwProviderEvent \<Rightarrow> string option" where
  "Name m this =
     (case load m (Ptr (m_eventMetadataDesc this)) of
        None \<Rightarrow> None
      | Some blk \<Rightarrow> region_str (drop 3 blk))"

definition MetadataDescriptor :: "EtwProviderEvent \<Rightarrow> EVENT_DATA_DESCRIPTOR" where
  "MetadataDescriptor this = m_eventMetadataDesc this"

section \<open>EtwProvider\<close>

text \<open>
  Modelled from the spec: \<^verbatim>\<open>MyVector\<close> (vector.h is not among the sources) is the
  provider's "owned collection", a list in insertion order; \<^verbatim>\<open>push_back\<close> appends,
  \<^verbatim>\<open>len\<close> is its length and \<^verbatim>\<open>back\<close> its last element. A provider keeps
  the \<^verbatim>\<open>LPCGUID\<close> it was given; the GUID behind it is taken not to change, and the
  pointer is modelled by the value it points at.
\<close>

record EtwProvider =
  m_guid :: GUID
  m_regHandle :: nat
  m_providerMetadataDesc :: EVENT_DATA_DESCRIPTOR
  m_events :: "EtwProviderEvent list"

definition EtwProvider_new :: "GUID \<Rightarrow> EtwProvider" where
  "EtwProvider_new providerGuid =
     \<lparr>m_guid = providerGuid, m_regHandle = 0,
      m_providerMetadataDesc = zero_descriptor, m_events = []\<rparr>"

definition providerMetadataLength :: "string \<Rightarrow> 16 word" where
  "providerMetadataLength providerName = of_nat ((strlen providerName + 1) + 2)"

definition EtwProvider_Initialize ::
  "EtwProvider \<Rightarrow> string \<Rightarrow> kernel \<Rightarrow> (NTSTATUS \<times> EtwProvider \<times> kernel) option" where
  "EtwProvider_Initialize this providerName k =
     (let (status, regHandle, k1) = EtwRegister (m_guid this) k
      in if status \<noteq> STATUS_SUCCESS then Some (status, this, k1)
         else
           let this1 = this\<lparr>m_regHandle := regHandle\<rparr>;
               len = unat (providerMetadataLength providerName);
               (providerMetadata, k2) = ExAllocatePoolWithTag len k1
           in if providerMetadata = NULL then Some (STATUS_UNSUCCESSFUL, this1, k2)
              else do {
                m1 \<leftarrow> memset0 (mem k2) providerMetadata len;
                m2 \<leftarrow> store m1 providerMetadata 0 (le_bytes 2 len);
                m3 \<leftarrow> strcpy m2 providerMetadata 2 providerName;
                status \<leftarrow> EtwSetInformation regHandle providerMetadata len (k2\<lparr>mem := m3\<rparr>);
                if status \<noteq> STATUS_SUCCESS then Some (status, this1, k2\<lparr>mem := m3\<rparr>)
                else Some (STATUS_SUCCESS,
                       this1\<lparr>m_providerMetadataDesc :=
                         (EventDataDescCreate providerMetadata len)
                           \<lparr>Type := EVENT_DATA_DESCRIPTOR_TYPE_PROVIDER_METADATA\<rparr>\<rparr>,
                       k2\<lparr>mem := m3\<rparr>)
              })"

definition Guid :: "EtwProvider \<Rightarrow> GUID" where
  "Guid this = m_guid this"

text \<open>
  \<^verbatim>\<open>FindEvent\<close>: \<open>Some (Some e)\<close> is a pointer to the first event whose name
  compares equal under \<^verbatim>\<open>strcmp\<close>, \<open>Some None\<close> is NULL.
\<close>

fun FindEvent_loop :: "EtwProviderEvent list \<Rightarrow> string \<Rightarrow> memory \<Rightarrow> EtwProviderEvent option option" where
  "FindEvent_loop [] eventName m = Some None"
| "FindEvent_loop (e # es) eventName m =
     (case Name m e of
        None \<Rightarrow> None
      | Some n \<Rightarrow> if c_str eventName = n then Some (Some e) else FindEvent_loop es eventName m)"

definition FindEvent :: "EtwProvider \<Rightarrow> string \<Rightarrow> kernel \<Rightarrow> EtwProviderEvent option option" where
  "FindEvent this eventName k = FindEvent_loop (m_events this) eventName (mem k)"

definition AddEvent ::
  "EtwProvider \<Rightarrow> string \<Rightarrow> field list \<Rightarrow> kernel \<Rightarrow> (NTSTATUS \<times> EtwProvider \<times> kernel) option" where
  "AddEvent this eventName args k =
     do {
       found \<leftarrow> FindEvent this eventName k;
       case found of
         Some e \<Rightarrow> Some (STATUS_SUCCESS, this, k)
       | None \<Rightarrow>
           do {
             (status, event, k1) \<leftarrow> EtwProviderEvent_Initialize EtwProviderEvent_new eventName args k;
             if status \<noteq> STATUS_SUCCESS then Some (status, this, k1)
             else Some (status, this\<lparr>m_events := m_events this @ [event]\<rparr>, k1)
           }
     }"

text \<open>
  What the \<^verbatim>\<open>void*\<close> handed to \<^verbatim>\<open>CreateTraceProperty\<close> addresses: the local
  \<^verbatim>\<open>size_t fieldValue\<close> of \<^verbatim>\<open>WriteEvent\<close>, or the block the value points
  at. \<open>AddressOfLocal v s\<close> is the address of the local when it holds \<open>v\<close> and the
  stack holds the bytes \<open>s\<close> after it: a read at that address finds the eight bytes of
  \<open>v\<close> and then \<open>s\<close>; reading on past \<open>s\<close> is undefined.
\<close>

datatype pointer = AddressOfLocal "64 word" string | Pointer addr

fun region :: "memory \<Rightarrow> pointer \<Rightarrow> string option" where
  "region m (AddressOfLocal v s) = Some (le_bytes 8 (unat v) @ s)"
| "region m (Pointer a) = load m a"

definition SizeOfField :: "int \<Rightarrow> pointer \<Rightarrow> memory \<Rightarrow> nat option" where
  "SizeOfField fieldType fieldValue m =
     (let t = fieldType AND 0x000000FF in
      if t = EtwFieldAnsiString then
        (case region m fieldValue of
           None \<Rightarrow> None
         | Some r \<Rightarrow> (case region_str r of None \<Rightarrow> None | Some s \<Rightarrow> Some (length s + 1)))
      else if t = EtwFieldInt8 then Some 1
      else if t = EtwFieldUInt8 then Some 1
      else if t = EtwFieldInt16 then Some 2
      else if t = EtwFieldUInt16 then Some 2
      else if t = EtwFieldInt32 then Some 4
      else if t = EtwFieldUInt32 then Some 4
      else if t = EtwFieldInt64 then Some 8
      else if t = EtwFieldUInt64 then Some 8
      else if t = EtwFieldFloat then Some 4
      else if t = EtwFieldDouble then Some 8
      else if t = EtwFieldBool32 then Some 4
      else if t = EtwFieldGuid then Some 16
      else Some 0)"

definition memcpy :: "memory \<Rightarrow> addr \<Rightarrow> pointer \<Rightarrow> nat \<Rightarrow> memory option" where
  "memcpy m dst src n =
     (case region m src of
        None \<Rightarrow> None
      | Some r \<Rightarrow> if n \<le> length r then store m dst 0 (take n r) else None)"

definition CreateTraceProperty ::
  "int \<Rightarrow> pointer \<Rightarrow> kernel \<Rightarrow> (EVENT_DATA_DESCRIPTOR \<times> kernel) option" where
  "CreateTraceProperty fieldType fieldValue k =
     do {
       fieldSize \<leftarrow> SizeOfField fieldType fieldValue (mem k);
       let (newSpace, k1) = ExAllocatePoolWithTag fieldSize k in
       if newSpace = NULL then Some (zero_descriptor, k1)
       else do {
         m1 \<leftarrow> memcpy (mem k1) newSpace fieldValue fieldSize;
         Some (EventDataDescCreate newSpace fieldSize, k1\<lparr>mem := m1\<rparr>)
       }
     }"

text \<open>
  The field loop of \<^verbatim>\<open>WriteEvent\<close>; \<open>None\<close> for the array is the early
  \<^verbatim>\<open>return STATUS_UNSUCCESSFUL\<close>. The array holds \<^verbatim>\<open>numberOfFields + 2\<close>
  descriptors, so index \<open>i + 2\<close> is in range.
\<close>

fun WriteEvent_loop ::
  "field list \<Rightarrow> nat \<Rightarrow> EVENT_DATA_DESCRIPTOR list \<Rightarrow> kernel
     \<Rightarrow> (EVENT_DATA_DESCRIPTOR list option \<times> kernel) option" where
  "WriteEvent_loop [] i dataDescriptors k = Some (Some dataDescriptors, k)"
| "WriteEvent_loop ((fieldName, fieldType, fieldValue) # args) i dataDescriptors k =
     do {
       (d, k1) \<leftarrow> CreateTraceProperty fieldType
                    (if fieldType \<noteq> EtwFieldAnsiString
                     then AddressOfLocal fieldValue (stack_above k (pool_calls k))
                     else Pointer (unat fieldValue)) k;
       if Ptr d = NULL then Some (None, k1)
       else WriteEvent_loop args (i + 1) (dataDescriptors[i + 2 := d]) k1
     }"

definition WriteEvent ::
  "EtwProvider \<Rightarrow> string \<Rightarrow> EVENT_DESCRIPTOR \<Rightarrow> field list \<Rightarrow> kernel \<Rightarrow> (NTSTATUS \<times> kernel) option" where
  "WriteEvent this eventName eventDescriptor args k =
     do {
       found \<leftarrow> FindEvent this eventName k;
       case found of
         None \<Rightarrow> Some (STATUS_UNSUCCESSFUL, k)
       | Some event \<Rightarrow>
           let numberOfDescriptors = length args + 2;
               allocSize = numberOfDescriptors * 16;
               (dataDescriptors, k1) = ExAllocatePoolWithTag allocSize k
           in if dataDescriptors = NULL then Some (STATUS_UNSUCCESSFUL, k1)
              else do {
                (filled, k2) \<leftarrow>
                  WriteEvent_loop args 0
                    ((replicate numberOfDescriptors zero_descriptor)
                       [0 := m_providerMetadataDesc this, 1 := MetadataDescriptor event]) k1;
                case filled of
                  None \<Rightarrow> Some (STATUS_UNSUCCESSFUL, k2)
                | Some descs \<Rightarrow> Some (EtwWrite (m_regHandle this) eventDescriptor numberOfDescriptors descs k2)
              }
     }"

section \<open>The provider cache and the trace entry point\<close>

definition guid_equal :: "GUID \<Rightarrow> GUID \<Rightarrow> bool" where
  "guid_equal a b \<longleftrightarrow>
     Data1 a = Data1 b \<and> Data2 a = Data2 b \<and> Data3 a = Data3 b \<and>
     Data4 a ! 0 = Data4 b ! 0 \<and> Data4 a ! 1 = Data4 b ! 1 \<and>
     Data4 a ! 2 = Data4 b ! 2 \<and> Data4 a ! 3 = Data4 b ! 3 \<and>
     Data4 a ! 4 = Data4 b ! 4 \<and> Data4 a ! 5 = Data4 b ! 5 \<and>
     Data4 a ! 6 = Data4 b ! 6 \<and> Data4 a ! 7 = Data4 b ! 7"

text \<open>\<^verbatim>\<open>FindProvider\<close> gives the index of the provider it points at, \<open>None\<close> for NULL.\<close>

fun FindProvider_loop :: "EtwProvider list \<Rightarrow> GUID \<Rightarrow> nat \<Rightarrow> nat option" where
  "FindProvider_loop [] providerGuid i = None"
| "FindProvider_loop (p # ps) providerGuid i =
     (if guid_equal (Guid p) providerGuid then Some i else FindProvider_loop ps providerGuid (i + 1))"

definition FindProvider :: "EtwProvider list \<Rightarrow> GUID \<Rightarrow> nat option" where
  "FindProvider g_ProviderCache providerGuid = FindProvider_loop g_ProviderCache providerGuid 0"

definition CreateEventDescriptor :: "64 word \<Rightarrow> 8 word \<Rightarrow> EVENT_DESCRIPTOR" where
  "CreateEventDescriptor keyword level =
     \<lparr>Id' = 0, Version = 0, Channel = 11, Level = level, Opcode = 0, Task = 0, Keyword = keyword\<rparr>"

text \<open>
  The second half of \<^verbatim>\<open>EtwTrace\<close>, on the provider at index \<open>i\<close> of the cache:
  \<^verbatim>\<open>AddEvent\<close> and \<^verbatim>\<open>WriteEvent\<close> work on the cached provider in place.
\<close>

definition EtwTrace_emit ::
  "nat \<Rightarrow> string \<Rightarrow> 8 word \<Rightarrow> 64 word \<Rightarrow> field list \<Rightarrow> EtwProvider list \<times> kernel
     \<Rightarrow> (NTSTATUS \<times> EtwProvider list \<times> kernel) option" where
  "EtwTrace_emit i eventName eventLevel keyword args st =
     (case st of (g_ProviderCache, k) \<Rightarrow>
        do {
          (status, etwProvider, k1) \<leftarrow> AddEvent (g_ProviderCache ! i) eventName args k;
          if status \<noteq> STATUS_SUCCESS then Some (status, g_ProviderCache[i := etwProvider], k1)
          else do {
            (status, k2) \<leftarrow>
              WriteEvent etwProvider eventName (CreateEventDescriptor keyword eventLevel) args k1;
            Some (status, g_ProviderCache[i := etwProvider], k2)
          }
        })"

definition EtwTrace ::
  "string \<Rightarrow> GUID \<Rightarrow> string \<Rightarrow> 8 word \<Rightarrow> 64 word \<Rightarrow> field list \<Rightarrow> EtwProvider list \<times> kernel
     \<Rightarrow> (NTSTATUS \<times> EtwProvider list \<times> kernel) option" where
  "EtwTrace providerName providerGuid eventName eventLevel keyword args st =
     (case st of (g_ProviderCache, k) \<Rightarrow>
        if KeGetCurrentIrql k > PASSIVE_LEVEL then Some (STATUS_UNSUCCESSFUL, g_ProviderCache, k)
        else
          (case FindProvider g_ProviderCache providerGuid of
             Some i \<Rightarrow> EtwTrace_emit i eventName eventLevel keyword args (g_ProviderCache, k)
           | None \<Rightarrow>
               do {
                 (status, newEtwProvider, k1) \<leftarrow>
                   EtwProvider_Initialize (EtwProvider_new providerGuid) providerName k;
                 if status \<noteq> STATUS_SUCCESS then Some (status, g_ProviderCache, k1)
                 else EtwTrace_emit (length g_ProviderCache) eventName eventLevel keyword args
                        (g_ProviderCache @ [newEtwProvider], k1)
               }))"

section \<open>Notions used to state the properties\<close>

text \<open>Every block of \<open>m\<close> is still there, unchanged, in \<open>m'\<close>.\<close>

definition mem_extends :: "memory \<Rightarrow> memory \<Rightarrow> bool" where
  "mem_extends m m' \<longleftrightarrow> (\<forall>a \<in> fst ` set m. load m' a = load m a)"

text \<open>
  The blobs as the spec lays them out, and the serialized length of an event metadata
  blob as the spec computes it: the length of the event name, 1 for its terminator, 2
  for the total-length field, 1 for the tag byte and, for each field, the length of its
  name, 1 for the terminator and 1 for the type byte.
\<close>

fun encode_fields :: "field list \<Rightarrow> string" where
  "encode_fields [] = []"
| "encode_fields ((fieldName, fieldType, fieldValue) # args) =
     c_str fieldName @ [NUL, char_of fieldType] @ encode_fields args"

definition serialized_length :: "string \<Rightarrow> field list \<Rightarrow> nat" where
  "serialized_length eventName args =
     length (c_str eventName) + 1 + 2 + 1
       + sum_list (map (\<lambda>(fieldName, fieldType, fieldValue). length (c_str fieldName) + 1 + 1) args)"

definition event_blob :: "string \<Rightarrow> field list \<Rightarrow> string" where
  "event_blob eventName args =
     le_bytes 2 (serialized_length eventName args) @ [NUL] @ c_str eventName @ [NUL]
       @ encode_fields args"

text \<open>
  A kernel at interrupt level \<open>level\<close> with memory \<open>m\<close> in which every pool request
  is granted, the tracing subsystem answers \<open>reg\<close> to a registration and success
  to everything else, and the stack holds eight bytes \<^verbatim>\<open>0xCC\<close> after the local
  variable of \<^verbatim>\<open>WriteEvent\<close>.
\<close>

definition granting_kernel :: "nat \<Rightarrow> memory \<Rightarrow> NTSTATUS \<Rightarrow> kernel" where
  "granting_kernel level m reg =
     \<lparr>irql = level, mem = m, pool_calls = 0, pool_grants = (\<lambda>n size. True),
      etw_register_result = (\<lambda>g. (reg, 1)),
      etw_set_information_result = (\<lambda>h blob. STATUS_SUCCESS),
      etw_write_result = (\<lambda>c. STATUS_SUCCESS),
      etw_registered = [], etw_written = [],
      stack_above = (\<lambda>n. replicate 8 (CHR 0xCC))\<rparr>"

text \<open>Two GUIDs for the examples.\<close>

definition guid_0 :: GUID where
  "guid_0 = \<lparr>Data1 = 0, Data2 = 0, Data3 = 0, Data4 = [0, 0, 0, 0, 0, 0, 0, 0]\<rparr>"

definition guid_1 :: GUID where
  "guid_1 = \<lparr>Data1 = 1, Data2 = 0, Data3 = 0, Data4 = [0, 0, 0, 0, 0, 0, 0, 0]\<rparr>"

text \<open>
  The pointer \<^verbatim>\<open>WriteEvent\<close> hands to \<^verbatim>\<open>CreateTraceProperty\<close> for a field
  when the stack holds \<open>s\<close> after the local, and the bytes
  \<^verbatim>\<open>CreateTraceProperty\<close> copies from it in memory \<open>m\<close>.
\<close>

definition field_source :: "string \<Rightarrow> field \<Rightarrow> pointer" where
  "field_source s f =
     (case f of (fieldName, fieldType, fieldValue) \<Rightarrow>
        if fieldType \<noteq> EtwFieldAnsiString then AddressOfLocal fieldValue s
        else Pointer (unat fieldValue))"

definition field_payload :: "memory \<Rightarrow> string \<Rightarrow> field \<Rightarrow> string option" where
  "field_payload m s f =
     (case SizeOfField (fst (snd f)) (field_source s f) m of
        None \<Rightarrow> None
      | Some fieldSize \<Rightarrow>
          (case region m (field_source s f) of
             None \<Rightarrow> None
           | Some r \<Rightarrow> if fieldSize \<le> length r then Some (take fieldSize r) else None))"

text \<open>
  The Field Type Table as the spec has it: the fixed byte size of each type that is
  not a string (integers of width 8, 16, 32 and 64, float, double, 32-bit boolean,
  GUID), and 0 for a type tag that is not supported.
\<close>

definition field_width :: "int \<Rightarrow> nat" where
  "field_width t =
     (if t = EtwFieldInt8 \<or> t = EtwFieldUInt8 then 1
      else if t = EtwFieldInt16 \<or> t = EtwFieldUInt16 then 2
      else if t = EtwFieldInt32 \<or> t = EtwFieldUInt32 \<or> t = EtwFieldFloat \<or> t = EtwFieldBool32
        then 4
      else if t = EtwFieldInt64 \<or> t = EtwFieldUInt64 \<or> t = EtwFieldDouble then 8
      else if t = EtwFieldGuid then 16
      else 0)"

text \<open>
  The bytes the driver takes for a field's value, in memory \<open>m\<close> and with \<open>s\<close>
  after the argument on the stack. For a field of type \<^verbatim>\<open>EtwFieldAnsiString\<close> they are the characters
  of the string the argument points at, with the terminator. For every other type they
  are read where the argument itself lies, eight bytes followed by \<open>s\<close>: as many
  bytes as the Field Type Table says for the low byte of the type tag (sixteen for a
  GUID, so eight of them are bytes of \<open>s\<close>), or, when the low byte is that of a
  string and the tag has other bits set, the characters found there up to the first
  terminator.
\<close>

definition field_bytes :: "memory \<Rightarrow> string \<Rightarrow> field \<Rightarrow> string option" where
  "field_bytes m s f =
     (case f of (fieldName, fieldType, fieldValue) \<Rightarrow>
        if fieldType = EtwFieldAnsiString then
          (case load m (unat fieldValue) of
             None \<Rightarrow> None
           | Some r \<Rightarrow> if NUL \<in> set r then Some (c_str r @ [NUL]) else None)
        else
          let argument = le_bytes 8 (unat fieldValue) @ s;
              t = fieldType AND 0x000000FF
          in if t = EtwFieldAnsiString
             then (if NUL \<in> set argument then Some (c_str argument @ [NUL]) else None)
             else if field_width t \<le> length argument
               then Some (take (field_width t) argument) else None)"

text \<open>
  A data descriptor describes a field when it points at a block that holds exactly
  those bytes, has their number as its size, and has the type of a plain data
  descriptor.
\<close>

definition describes :: "memory \<Rightarrow> string \<Rightarrow> EVENT_DATA_DESCRIPTOR \<Rightarrow> field \<Rightarrow> bool" where
  "describes m s d f \<longleftrightarrow>
     (case field_bytes m s f of
        None \<Rightarrow> False
      | Some payload \<Rightarrow>
          load m (Ptr d) = Some payload \<and> Size d = length payload mod 2 ^ 32 \<and>
          Type d = EVENT_DATA_DESCRIPTOR_TYPE_NONE)"

definition provider_blob :: "string \<Rightarrow> string" where
  "provider_blob providerName =
     le_bytes 2 (length (c_str providerName) + 1 + 2) @ c_str providerName @ [NUL]"

text \<open>
  Every event of the provider has a readable name, and no two events have the same name.
\<close>

definition unique_event_names :: "memory \<Rightarrow> EtwProvider \<Rightarrow> bool" where
  "unique_event_names m p \<longleftrightarrow>
     None \<notin> set (map (Name m) (m_events p)) \<and> distinct (map (Name m) (m_events p))"

text \<open>
  The states of the driver: it starts with an empty provider cache; \<^verbatim>\<open>EtwTrace\<close> is
  its only entry point; between two calls the rest of the system may change the kernel
  in any way that leaves the metadata blobs of the cached providers as they are.
\<close>

inductive reachable :: "EtwProvider list \<times> kernel \<Rightarrow> bool" where
  boot: "reachable ([], k)"
| emit: "reachable st \<Longrightarrow>
         EtwTrace providerName providerGuid eventName eventLevel keyword args st = Some (status, st') \<Longrightarrow>
         reachable st'"
| environment: "reachable (g_ProviderCache, k) \<Longrightarrow>
         list_all (\<lambda>p. list_all (\<lambda>e. load (mem k') (Ptr (m_eventMetadataDesc e))
                                       = load (mem k) (Ptr (m_eventMetadataDesc e)))
                             (m_events p)) g_ProviderCache \<Longrightarrow>
         reachable (g_ProviderCache, k')"

text \<open>
  The life of one provider object: created without events, then any sequence of
  \<^verbatim>\<open>AddEvent\<close> and \<^verbatim>\<open>WriteEvent\<close> calls on it and, between them, of changes
  of the kernel by the rest of the system (calls for other providers among them) that
  leave the metadata blobs of its events as they are.
  \<open>provider_history this k N\<close>: the provider is \<open>this\<close>, the kernel is \<open>k\<close>,
  and \<open>N\<close> holds the event names (as C strings) that were passed to
  \<^verbatim>\<open>AddEvent\<close>.
\<close>

inductive provider_history :: "EtwProvider \<Rightarrow> kernel \<Rightarrow> string set \<Rightarrow> bool" where
  created: "m_events this = [] \<Longrightarrow> provider_history this k {}"
| added: "provider_history this k N \<Longrightarrow>
          AddEvent this eventName args k = Some (status, this', k') \<Longrightarrow>
          provider_history this' k' (insert (c_str eventName) N)"
| written: "provider_history this k N \<Longrightarrow>
          WriteEvent this eventName eventDescriptor args k = Some (status, k') \<Longrightarrow>
          provider_history this k' N"
| elsewhere: "provider_history this k N \<Longrightarrow>
          list_all (\<lambda>e. load (mem k') (Ptr (m_eventMetadataDesc e))
                          = load (mem k) (Ptr (m_eventMetadataDesc e))) (m_events this) \<Longrightarrow>
          provider_history this k' N"

text \<open>
  No event of the provider carries the name: every event has a readable name, and it
  is another one.
\<close>

definition unknown_event :: "memory \<Rightarrow> EtwProvider \<Rightarrow> string \<Rightarrow> bool" where
  "unknown_event m p eventName \<longleftrightarrow>
     list_all (\<lambda>e. case Name m e of None \<Rightarrow> False | Some n \<Rightarrow> n \<noteq> c_str eventName)
       (m_events p)"

text \<open>The event metadata builders of a provider that carry a given name.\<close>

definition builders_named :: "memory \<Rightarrow> EtwProvider \<Rightarrow> string \<Rightarrow> EtwProviderEvent list" where
  "builders_named m p eventName =
     filter (\<lambda>e. Name m e = Some (c_str eventName)) (m_events p)"

text \<open>
  The types of the Field Type Table whose value fits in the eight bytes of an
  argument: the integers, float, double and the 32-bit boolean.
\<close>

definition fixed_size_types :: "int list" where
  "fixed_size_types =
     [EtwFieldInt8, EtwFieldUInt8, EtwFieldInt16, EtwFieldUInt16, EtwFieldInt32, EtwFieldUInt32,
      EtwFieldInt64, EtwFieldUInt64, EtwFieldFloat, EtwFieldDouble, EtwFieldBool32]"

text \<open>The type tags that have a case of their own in \<^verbatim>\<open>SizeOfField\<close>.\<close>

definition handled_field_types :: "int list" where
  "handled_field_types =
     [EtwFieldAnsiString, EtwFieldInt8, EtwFieldUInt8, EtwFieldInt16, EtwFieldUInt16,
      EtwFieldInt32, EtwFieldUInt32, EtwFieldInt64, EtwFieldUInt64, EtwFieldFloat,
      EtwFieldDouble, EtwFieldBool32, EtwFieldGuid]"

section \<open>Lemmas\<close>

subsection \<open>Memory\<close>

lemma le_mod_imp_less: "n \<le> n mod m \<Longrightarrow> 0 < m \<Longrightarrow> n < (m::nat)"
  using mod_less_divisor [of m n] by linarith

lemma le_foldr_max: "a \<in> set xs \<Longrightarrow> a \<le> foldr max xs (0::nat)"
  by (induction xs) (auto simp: max_def)

lemma fresh_addr_fresh: "load m (fresh_addr m) = None"
proof -
  have "fresh_addr m \<notin> set (map fst m)"
    using le_foldr_max [of "fresh_addr m" "map fst m"] by (auto simp: fresh_addr_def)
  then show ?thesis by (simp add: load_def map_of_eq_None_iff)
qed

lemma fresh_addr_not_key: "fresh_addr m \<notin> fst ` set m"
  using fresh_addr_fresh [of m] by (simp add: load_def map_of_eq_None_iff)

lemma fresh_addr_not_NULL: "fresh_addr m \<noteq> NULL"
  by (simp add: fresh_addr_def)

lemma load_keys: "load m a = Some blk \<Longrightarrow> a \<in> fst ` set m"
  by (auto simp: load_def dest: map_of_SomeD intro: rev_image_eqI)

lemma store_SomeD:
  assumes "store m a off bs = Some m'"
  obtains blk where "load m a = Some blk" "off + length bs \<le> length blk"
    "load m' = (load m)(a \<mapsto> patch blk off bs)" "map fst m' = map fst m"
proof -
  from assms obtain blk where b: "load m a = Some blk" "off + length bs \<le> length blk"
    and m': "m' = AList.update a (patch blk off bs) m"
    by (auto simp: store_def patch_def split: option.splits if_splits)
  have "load m' = (load m)(a \<mapsto> patch blk off bs)"
    unfolding m' load_def by (rule ext) (simp add: update_conv')
  moreover have "map fst m' = map fst m"
    using load_keys [OF b(1)] by (simp add: m' update_keys)
  ultimately show ?thesis using b that by blast
qed

lemma store_SomeI:
  "load m a = Some blk \<Longrightarrow> off + length bs \<le> length blk \<Longrightarrow>
   store m a off bs = Some (AList.update a (patch blk off bs) m)"
  by (simp add: store_def patch_def)

lemma patch_length: "off + length bs \<le> length blk \<Longrightarrow> length (patch blk off bs) = length blk"
  by (simp add: patch_def)

lemma patch_adjacent:
  assumes "off + length bs + length cs \<le> length blk"
  shows "patch (patch blk off bs) (off + length bs) cs = patch blk off (bs @ cs)"
proof -
  have "off \<le> length blk" using assms by simp
  then have "length (take off blk) = off" by simp
  then show ?thesis
    by (simp add: patch_def ac_simps del: length_take)
qed

lemma patch_adjacent':
  "off' = off + length bs \<Longrightarrow> off' + length cs \<le> length blk \<Longrightarrow>
   patch (patch blk off bs) off' cs = patch blk off (bs @ cs)"
  using patch_adjacent [of off bs cs blk] by simp

lemma patch_all: "length bs = length blk \<Longrightarrow> patch blk 0 bs = bs"
  by (simp add: patch_def)

lemma patch_nil: "patch blk off [] = blk"
  by (simp add: patch_def)

subsection \<open>The event metadata blob\<close>

lemma NUL_notin_c_str: "NUL \<notin> set (c_str s)"
  by (auto simp: c_str_def dest: set_takeWhileD)

lemma c_str_append_NUL: "c_str (c_str s @ NUL # r) = c_str s"
proof -
  have "takeWhile (\<lambda>c. c \<noteq> NUL) (c_str s @ NUL # r) = c_str s @ takeWhile (\<lambda>c. c \<noteq> NUL) (NUL # r)"
    using NUL_notin_c_str [of s] by (intro takeWhile_append2) auto
  then show ?thesis by (simp add: c_str_def)
qed

lemma region_str_c_str: "region_str (c_str s @ NUL # r) = Some (c_str s)"
  by (simp add: region_str_def c_str_append_NUL)

lemma take_le_bytes: "n \<le> m \<Longrightarrow> take n (le_bytes m v) = le_bytes n v"
proof (induction n arbitrary: m v)
  case 0
  show ?case by simp
next
  case (Suc n)
  then obtain m' where "m = Suc m'" by (cases m) auto
  with Suc show ?case by simp
qed

lemma length_le_bytes: "length (le_bytes n v) = n"
  by (induction n arbitrary: v) auto

lemma length_encode_fields:
  "length (encode_fields args) =
     sum_list (map (\<lambda>(fieldName, fieldType, fieldValue). length (c_str fieldName) + 1 + 1) args)"
  by (induction args rule: encode_fields.induct) auto

lemma length_event_blob: "length (event_blob eventName args) = serialized_length eventName args"
  by (simp add: event_blob_def serialized_length_def length_le_bytes length_encode_fields)

lemma unat_add_of_nat16: "unat ((w :: 16 word) + of_nat n) = (unat w + n) mod 65536"
  by (simp add: unat_word_ariths unat_of_nat mod_simps)

lemma unat_measure_fields:
  "unat (measure_fields args w) = (unat w + length (encode_fields args)) mod 65536"
proof (induction args w rule: measure_fields.induct)
  case (1 w)
  have "unat w < 2 ^ LENGTH(16)" by (rule unsigned_less)
  then show ?case by simp
next
  case (2 fieldName fieldType fieldValue args w)
  have "unat (measure_fields args (w + of_nat (strlen fieldName + 1 + 1)))
          = ((unat w + (strlen fieldName + 1 + 1)) mod 65536 + length (encode_fields args)) mod 65536"
    by (simp only: "2.IH" unat_add_of_nat16)
  then show ?case
    by (simp add: strlen_def mod_simps ac_simps)
qed

lemma unat_eventMetadataLength:
  "unat (eventMetadataLength eventName args) = serialized_length eventName args mod 65536"
proof -
  have "unat (of_nat (eventMetadataHeaderLength eventName) :: 16 word)
          = eventMetadataHeaderLength eventName mod 65536"
    by (simp add: unat_of_nat)
  then have "unat (eventMetadataLength eventName args)
          = (eventMetadataHeaderLength eventName + length (encode_fields args)) mod 65536"
    by (simp add: eventMetadataLength_def unat_measure_fields mod_simps)
  also have "eventMetadataHeaderLength eventName + length (encode_fields args)
          = serialized_length eventName args"
    by (simp add: eventMetadataHeaderLength_def serialized_length_def length_encode_fields strlen_def)
  finally show ?thesis .
qed

lemma write_fields_SomeD:
  assumes "write_fields args a loc m = Some m'" and "load m a = Some blk" and "loc \<le> length blk"
  shows "loc + length (encode_fields args) \<le> length blk \<and>
         load m' = (load m)(a \<mapsto> patch blk loc (encode_fields args)) \<and>
         map fst m' = map fst m"
  using assms
proof (induction args a loc m arbitrary: blk rule: write_fields.induct)
  case (1 a loc m)
  then show ?case by (auto simp: patch_nil)
next
  case (2 fieldName fieldType fieldValue args a loc m)
  from "2.prems"(1) obtain m1 m2 where
    s1: "strcpy m a loc fieldName = Some m1" and
    s2: "store m1 a (loc + strlen fieldName + 1) [char_of fieldType] = Some m2" and
    s3: "write_fields args a (loc + strlen fieldName + 1 + 1) m2 = Some m'"
    by (auto split: bind_splits)
  let ?n = "c_str fieldName @ [NUL]"
  from s1 "2.prems"(2) have l1: "loc + length ?n \<le> length blk"
    and m1: "load m1 = (load m)(a \<mapsto> patch blk loc ?n)" and k1: "map fst m1 = map fst m"
    by (auto simp: strcpy_def elim!: store_SomeD)
  from s2 m1 have l2: "loc + strlen fieldName + 1 + 1 \<le> length (patch blk loc ?n)"
    and m2: "load m2 = (load m1)(a \<mapsto> patch (patch blk loc ?n) (loc + strlen fieldName + 1) [char_of fieldType])"
    and k2: "map fst m2 = map fst m1"
    by (auto elim!: store_SomeD)
  have len1: "length (patch blk loc ?n) = length blk"
    using l1 by (rule patch_length)
  have "patch (patch blk loc ?n) (loc + length ?n) [char_of fieldType]
              = patch blk loc (?n @ [char_of fieldType])"
    using l2 len1 by (intro patch_adjacent) (simp add: strlen_def)
  then have p2: "patch (patch blk loc ?n) (loc + strlen fieldName + 1) [char_of fieldType]
              = patch blk loc (c_str fieldName @ [NUL, char_of fieldType])"
    by (simp add: strlen_def)
  let ?b2 = "patch blk loc (c_str fieldName @ [NUL, char_of fieldType])"
  have len2: "length ?b2 = length blk"
    using l2 len1 by (intro patch_length) (simp add: strlen_def)
  have m2': "load m2 = (load m)(a \<mapsto> ?b2)"
    by (simp only: m2 m1 p2 fun_upd_upd)
  then have ld2: "load m2 a = Some ?b2" by simp
  have le2: "loc + strlen fieldName + 1 + 1 \<le> length ?b2" using l2 len1 len2 by simp
  from "2.IH" [OF s1 s2 s3 ld2 le2]
  have l3: "loc + strlen fieldName + 1 + 1 + length (encode_fields args) \<le> length ?b2"
    and m3: "load m' = (load m2)(a \<mapsto> patch ?b2 (loc + strlen fieldName + 1 + 1) (encode_fields args))"
    and k3: "map fst m' = map fst m2"
    by auto
  let ?e = "c_str fieldName @ [NUL, char_of fieldType]"
  have "patch (patch blk loc ?e) (loc + length ?e) (encode_fields args)
              = patch blk loc (?e @ encode_fields args)"
    using l3 len2 by (intro patch_adjacent) (simp add: strlen_def)
  then have p3: "patch ?b2 (loc + strlen fieldName + 1 + 1) (encode_fields args)
              = patch blk loc (encode_fields ((fieldName, fieldType, fieldValue) # args))"
    by (simp add: strlen_def)
  have "load m' = (load m)(a \<mapsto> patch blk loc (encode_fields ((fieldName, fieldType, fieldValue) # args)))"
    by (simp only: m3 m2' p3 fun_upd_upd)
  moreover have "loc + length (encode_fields ((fieldName, fieldType, fieldValue) # args)) \<le> length blk"
    using l3 len2 by (simp add: strlen_def)
  moreover have "map fst m' = map fst m"
    by (simp only: k3 k2 k1)
  ultimately show ?case by blast
qed

lemma ExAllocatePoolWithTag_granted:
  "pool_grants k (pool_calls k) n \<Longrightarrow>
   ExAllocatePoolWithTag n k =
     (fresh_addr (mem k),
      k\<lparr>mem := (fresh_addr (mem k), replicate n NUL) # mem k, pool_calls := Suc (pool_calls k)\<rparr>)"
  by (simp add: ExAllocatePoolWithTag_def)

lemma ExAllocatePoolWithTag_refused:
  "\<not> pool_grants k (pool_calls k) n \<Longrightarrow>
   ExAllocatePoolWithTag n k = (NULL, k\<lparr>pool_calls := Suc (pool_calls k)\<rparr>)"
  by (simp add: ExAllocatePoolWithTag_def)

lemma load_Cons_fresh:
  "load ((fresh_addr m, blk) # m) = (load m)(fresh_addr m \<mapsto> blk)"
  by (rule ext) (simp add: load_def)

lemma EtwProviderEvent_Initialize_refused:
  assumes "\<not> pool_grants k (pool_calls k) (unat (eventMetadataLength eventName args))"
  shows "EtwProviderEvent_Initialize this eventName args k =
           Some (STATUS_UNSUCCESSFUL, this, k\<lparr>pool_calls := Suc (pool_calls k)\<rparr>)"
  using assms by (simp add: EtwProviderEvent_Initialize_def ExAllocatePoolWithTag_refused)

lemma EtwProviderEvent_Initialize_granted:
  assumes g: "pool_grants k (pool_calls k) (unat (eventMetadataLength eventName args))"
    and r: "EtwProviderEvent_Initialize this eventName args k = Some (status, ev, k')"
  shows "status = STATUS_SUCCESS \<and> serialized_length eventName args < 65536 \<and>
         ev = this\<lparr>m_eventMetadataDesc :=
                \<lparr>Ptr = fresh_addr (mem k), Size = serialized_length eventName args,
                 Type = EVENT_DATA_DESCRIPTOR_TYPE_EVENT_METADATA\<rparr>\<rparr> \<and>
         load (mem k') = (load (mem k))(fresh_addr (mem k) \<mapsto> event_blob eventName args) \<and>
         map fst (mem k') = fresh_addr (mem k) # map fst (mem k)"
proof -
  let ?n = "unat (eventMetadataLength eventName args)"
  let ?a = "fresh_addr (mem k)"
  let ?b0 = "replicate ?n NUL"
  let ?m0 = "(?a, ?b0) # mem k"
  let ?h = "le_bytes 2 ?n @ [NUL] @ c_str eventName @ [NUL]"
  from r g obtain m1 m2 m3 m4 m5 where
    s1: "memset0 ?m0 ?a ?n = Some m1" and
    s2: "store m1 ?a 0 (le_bytes 2 ?n) = Some m2" and
    s3: "store m2 ?a 2 [NUL] = Some m3" and
    s4: "strcpy m3 ?a 3 eventName = Some m4" and
    s5: "write_fields args ?a (eventMetadataHeaderLength eventName) m4 = Some m5" and
    res: "status = STATUS_SUCCESS"
      "ev = this\<lparr>m_eventMetadataDesc :=
             (EventDataDescCreate ?a ?n)\<lparr>Type := EVENT_DATA_DESCRIPTOR_TYPE_EVENT_METADATA\<rparr>\<rparr>"
      "k' = k\<lparr>mem := m5, pool_calls := Suc (pool_calls k)\<rparr>"
    by (auto simp: EtwProviderEvent_Initialize_def ExAllocatePoolWithTag_granted fresh_addr_not_NULL
        Let_def split: bind_splits)
  have l0: "load ?m0 = (load (mem k))(?a \<mapsto> ?b0)" by (rule load_Cons_fresh)
  from s1 l0 have m1: "load m1 = (load (mem k))(?a \<mapsto> ?b0)" and k1: "map fst m1 = map fst ?m0"
    by (auto simp: memset0_def patch_all elim!: store_SomeD)
  from s2 m1 have l2: "2 \<le> ?n"
    and m2: "load m2 = (load (mem k))(?a \<mapsto> patch ?b0 0 (le_bytes 2 ?n))"
    and k2: "map fst m2 = map fst m1"
    by (auto simp: length_le_bytes elim!: store_SomeD)
  have len2: "length (patch ?b0 0 (le_bytes 2 ?n)) = ?n"
    using l2 patch_length [of 0 "le_bytes 2 ?n" ?b0] by (simp add: length_le_bytes)
  from s3 m2 len2 have l3: "3 \<le> ?n"
    and m3: "load m3 = (load (mem k))(?a \<mapsto> patch (patch ?b0 0 (le_bytes 2 ?n)) 2 [NUL])"
    and k3: "map fst m3 = map fst m2"
    by (auto elim!: store_SomeD)
  have p3: "patch (patch ?b0 0 (le_bytes 2 ?n)) 2 [NUL] = patch ?b0 0 (le_bytes 2 ?n @ [NUL])"
    using l3 by (intro patch_adjacent') (simp_all add: length_le_bytes)
  have len3: "length (patch ?b0 0 (le_bytes 2 ?n @ [NUL])) = ?n"
    using l3 patch_length [of 0 "le_bytes 2 ?n @ [NUL]" ?b0] by (simp add: length_le_bytes)
  have m3': "load m3 = (load (mem k))(?a \<mapsto> patch ?b0 0 (le_bytes 2 ?n @ [NUL]))"
    by (simp only: m3 p3)
  from s4 m3' len3 have l4: "3 + length (c_str eventName @ [NUL]) \<le> ?n"
    and m4: "load m4 = (load (mem k))
               (?a \<mapsto> patch (patch ?b0 0 (le_bytes 2 ?n @ [NUL])) 3 (c_str eventName @ [NUL]))"
    and k4: "map fst m4 = map fst m3"
    by (auto simp: strcpy_def elim!: store_SomeD)
  have p4: "patch (patch ?b0 0 (le_bytes 2 ?n @ [NUL])) 3 (c_str eventName @ [NUL]) = patch ?b0 0 ?h"
    using l4 patch_adjacent' [of 3 0 "le_bytes 2 ?n @ [NUL]" "c_str eventName @ [NUL]" ?b0]
    by (simp add: length_le_bytes)
  have lenh: "length ?h = eventMetadataHeaderLength eventName"
    by (simp add: length_le_bytes eventMetadataHeaderLength_def strlen_def)
  have len4: "length (patch ?b0 0 ?h) = ?n"
    using l4 patch_length [of 0 ?h ?b0] by (simp add: length_le_bytes)
  have m4': "load m4 = (load (mem k))(?a \<mapsto> patch ?b0 0 ?h)"
    by (simp only: m4 p4)
  then have ld4: "load m4 ?a = Some (patch ?b0 0 ?h)" by simp
  have le4: "eventMetadataHeaderLength eventName \<le> length (patch ?b0 0 ?h)"
    unfolding len4 using l4 by (simp add: eventMetadataHeaderLength_def strlen_def)
  from write_fields_SomeD [OF s5 ld4 le4]
  have l5: "eventMetadataHeaderLength eventName + length (encode_fields args) \<le> ?n"
    and m5: "load m5 = (load m4)
               (?a \<mapsto> patch (patch ?b0 0 ?h) (eventMetadataHeaderLength eventName) (encode_fields args))"
    and k5: "map fst m5 = map fst m4"
    by (simp_all only: len4)
  have exact: "eventMetadataHeaderLength eventName + length (encode_fields args)
                 = serialized_length eventName args"
    by (simp add: eventMetadataHeaderLength_def serialized_length_def length_encode_fields strlen_def)
  have n: "?n = serialized_length eventName args mod 65536"
    by (rule unat_eventMetadataLength)
  have "serialized_length eventName args \<le> serialized_length eventName args mod 65536"
    using l5 by (simp only: exact n)
  then have small: "serialized_length eventName args < 65536"
    by (rule le_mod_imp_less) simp
  then have n': "?n = serialized_length eventName args" by (simp add: n)
  have p5: "patch (patch ?b0 0 ?h) (eventMetadataHeaderLength eventName) (encode_fields args)
                   = patch ?b0 0 (?h @ encode_fields args)"
    using l5 lenh by (intro patch_adjacent') simp_all
  have blob: "?h @ encode_fields args = event_blob eventName args"
    by (simp add: event_blob_def n')
  have "length (event_blob eventName args) = length ?b0"
    by (simp add: length_event_blob n')
  then have p6: "patch ?b0 0 (event_blob eventName args) = event_blob eventName args"
    by (rule patch_all)
  have "load m5 = (load (mem k))(?a \<mapsto> event_blob eventName args)"
    by (simp only: m5 m4' p5 blob p6 fun_upd_upd)
  moreover have "map fst m5 = ?a # map fst (mem k)"
    by (simp add: k5 k4 k3 k2 k1)
  moreover have "EventDataDescCreate ?a ?n =
      \<lparr>Ptr = ?a, Size = serialized_length eventName args, Type = EVENT_DATA_DESCRIPTOR_TYPE_NONE\<rparr>"
    using small by (simp add: EventDataDescCreate_def n')
  ultimately show ?thesis
    using res small by simp
qed

subsection \<open>Memory only grows\<close>

lemma load_in_keys: "a \<in> fst ` set m \<Longrightarrow> \<exists>blk. load m a = Some blk"
  by (cases "load m a") (simp_all add: load_def map_of_eq_None_iff)

lemma mem_extends_iff:
  "mem_extends m m' \<longleftrightarrow> (\<forall>a blk. load m a = Some blk \<longrightarrow> load m' a = Some blk)"
proof (intro iffI allI impI)
  fix a blk
  assume e: "mem_extends m m'" and l: "load m a = Some blk"
  from l have "a \<in> fst ` set m" by (rule load_keys)
  with e have "load m' a = load m a" unfolding mem_extends_def by (rule bspec)
  with l show "load m' a = Some blk" by simp
next
  assume r: "\<forall>a blk. load m a = Some blk \<longrightarrow> load m' a = Some blk"
  show "mem_extends m m'"
    unfolding mem_extends_def
  proof
    fix a assume "a \<in> fst ` set m"
    then obtain blk where "load m a = Some blk" using load_in_keys by blast
    with r show "load m' a = load m a" by simp
  qed
qed

lemma mem_extends_refl: "mem_extends m m"
  by (simp add: mem_extends_iff)

lemma mem_extends_load: "mem_extends m m' \<Longrightarrow> load m a = Some blk \<Longrightarrow> load m' a = Some blk"
  by (simp add: mem_extends_iff)

lemma mem_extends_keys: "mem_extends m m' \<Longrightarrow> a \<in> fst ` set m \<Longrightarrow> a \<in> fst ` set m'"
  using load_in_keys [of a m] by (auto dest: mem_extends_load load_keys)

lemma mem_extends_trans: "mem_extends m1 m2 \<Longrightarrow> mem_extends m2 m3 \<Longrightarrow> mem_extends m1 m3"
  by (simp add: mem_extends_iff)

lemma mem_extends_fresh:
  assumes "load m' = (load m)(fresh_addr m \<mapsto> blk)"
  shows "mem_extends m m'"
  unfolding mem_extends_iff
proof (intro allI impI)
  fix a b assume l: "load m a = Some b"
  then have "a \<noteq> fresh_addr m" using fresh_addr_fresh [of m] by auto
  with l show "load m' a = Some b" by (simp add: assms)
qed

lemma Name_mem_extends: "mem_extends m m' \<Longrightarrow> Name m e = Some n \<Longrightarrow> Name m' e = Some n"
  by (auto simp: Name_def mem_extends_iff split: option.splits)

lemma FindEvent_loop_mem_extends:
  assumes "mem_extends m m'"
  shows "FindEvent_loop es eventName m = Some r \<Longrightarrow> FindEvent_loop es eventName m' = Some r"
proof (induction es)
  case Nil
  then show ?case by simp
next
  case (Cons e es)
  from Cons.prems obtain n where n: "Name m e = Some n"
    by (auto split: option.splits)
  with assms have "Name m' e = Some n" by (rule Name_mem_extends)
  with n Cons show ?case by (simp split: if_splits)
qed

lemma region_mem_extends: "mem_extends m m' \<Longrightarrow> region m p = Some r \<Longrightarrow> region m' p = Some r"
  by (cases p) (auto dest: mem_extends_load)

lemma SizeOfField_mem_extends:
  assumes "mem_extends m m'" and "SizeOfField t p m = Some n"
  shows "SizeOfField t p m' = Some n"
proof (cases "t AND 0x000000FF = EtwFieldAnsiString")
  case True
  with assms(2) obtain r where "region m p = Some r"
    by (auto simp: SizeOfField_def split: option.splits)
  with assms(1) have "region m' p = region m p"
    by (simp add: region_mem_extends)
  with assms(2) True show ?thesis by (simp add: SizeOfField_def)
next
  case False
  with assms(2) show ?thesis by (simp add: SizeOfField_def)
qed

lemma field_payload_mem_extends:
  assumes "mem_extends m m'" and "field_payload m s f = Some p"
  shows "field_payload m' s f = Some p"
proof -
  from assms(2) obtain n r where
    1: "SizeOfField (fst (snd f)) (field_source s f) m = Some n" and
    2: "region m (field_source s f) = Some r" and 3: "n \<le> length r" "p = take n r"
    by (auto simp: field_payload_def split: option.splits if_splits)
  from assms(1) 1 have "SizeOfField (fst (snd f)) (field_source s f) m' = Some n"
    by (rule SizeOfField_mem_extends)
  moreover from assms(1) 2 have "region m' (field_source s f) = Some r"
    by (rule region_mem_extends)
  ultimately show ?thesis using 3 by (simp add: field_payload_def)
qed

text \<open>
  \<^verbatim>\<open>SizeOfField\<close> refines the Field Type Table, and what
  \<^verbatim>\<open>CreateTraceProperty\<close> copies is the bytes of the field's value.
\<close>

lemma SizeOfField_field_width:
  "fieldType AND 0x000000FF \<noteq> EtwFieldAnsiString \<Longrightarrow>
   SizeOfField fieldType p m = Some (field_width (fieldType AND 0x000000FF))"
  by (simp add: SizeOfField_def field_width_def)

lemma take_c_str:
  "NUL \<in> set r \<Longrightarrow>
   length (c_str r) + 1 \<le> length r \<and> take (length (c_str r) + 1) r = c_str r @ [NUL]"
proof (induction r)
  case Nil
  then show ?case by simp
next
  case (Cons c r)
  then show ?case by (cases "c = NUL") (auto simp: c_str_def)
qed

lemma region_take_c_str:
  "(case region_str r of None \<Rightarrow> None
    | Some x \<Rightarrow> if length x + 1 \<le> length r then Some (take (length x + 1) r) else None)
   = (if NUL \<in> set r then Some (c_str r @ [NUL]) else None)"
  using take_c_str [of r] by (simp add: region_str_def)

lemma field_payload_field_bytes: "field_payload m s f = field_bytes m s f"
proof -
  obtain fieldName fieldType fieldValue where f: "f = (fieldName, fieldType, fieldValue)"
    by (cases f)
  show ?thesis
  proof (cases "fieldType AND 0x000000FF = EtwFieldAnsiString")
    case True
    have "field_payload m s f =
          (case region m (field_source s f) of None \<Rightarrow> None
           | Some r \<Rightarrow> (case region_str r of None \<Rightarrow> None
              | Some x \<Rightarrow> if length x + 1 \<le> length r then Some (take (length x + 1) r) else None))"
      using True by (simp add: field_payload_def SizeOfField_def f split: option.splits)
    also have "\<dots> = (case region m (field_source s f) of None \<Rightarrow> None
           | Some r \<Rightarrow> if NUL \<in> set r then Some (c_str r @ [NUL]) else None)"
      by (simp only: region_take_c_str)
    also have "\<dots> = field_bytes m s f"
      using True by (simp add: field_bytes_def field_source_def f)
    finally show ?thesis .
  next
    case False
    then have t: "fieldType \<noteq> EtwFieldAnsiString" by auto
    from False t show ?thesis
      by (simp add: field_payload_def field_bytes_def field_source_def f SizeOfField_field_width
          Let_def)
  qed
qed

lemma describes_iff:
  "describes m s d f \<longleftrightarrow>
     (case field_payload m s f of
        None \<Rightarrow> False
      | Some payload \<Rightarrow>
          load m (Ptr d) = Some payload \<and> Size d = length payload mod 2 ^ 32 \<and>
          Type d = EVENT_DATA_DESCRIPTOR_TYPE_NONE)"
  by (simp add: describes_def field_payload_field_bytes)

lemma Name_event_blob:
  assumes "load m a = Some (event_blob eventName args)" and "Ptr (m_eventMetadataDesc e) = a"
  shows "Name m e = Some (c_str eventName)"
proof -
  have "drop 3 (event_blob eventName args) = c_str eventName @ NUL # encode_fields args"
    by (simp add: event_blob_def length_le_bytes)
  then show ?thesis using assms by (simp add: Name_def region_str_c_str)
qed

lemma EtwProviderEvent_Initialize_cases:
  assumes "EtwProviderEvent_Initialize this eventName args k = Some (status, ev, k')"
  obtains (refused) "status = STATUS_UNSUCCESSFUL" "ev = this" "k' = k\<lparr>pool_calls := Suc (pool_calls k)\<rparr>"
  | (granted) "status = STATUS_SUCCESS" "serialized_length eventName args < 65536"
      "ev = this\<lparr>m_eventMetadataDesc :=
                \<lparr>Ptr = fresh_addr (mem k), Size = serialized_length eventName args,
                 Type = EVENT_DATA_DESCRIPTOR_TYPE_EVENT_METADATA\<rparr>\<rparr>"
      "load (mem k') = (load (mem k))(fresh_addr (mem k) \<mapsto> event_blob eventName args)"
      "map fst (mem k') = fresh_addr (mem k) # map fst (mem k)"
proof (cases "pool_grants k (pool_calls k) (unat (eventMetadataLength eventName args))")
  case True
  from EtwProviderEvent_Initialize_granted [OF True assms] show ?thesis
    by (intro granted) simp_all
next
  case False
  from EtwProviderEvent_Initialize_refused [OF False, of this] assms show ?thesis
    by (intro refused) simp_all
qed

lemma EtwProviderEvent_Initialize_mem_extends:
  assumes "EtwProviderEvent_Initialize this eventName args k = Some (status, ev, k')"
  shows "mem_extends (mem k) (mem k')"
  using assms
proof (cases rule: EtwProviderEvent_Initialize_cases)
  case refused
  then show ?thesis by (simp add: mem_extends_refl)
next
  case granted
  then show ?thesis by (auto intro: mem_extends_fresh)
qed

lemma EtwProviderEvent_Initialize_Name:
  assumes "EtwProviderEvent_Initialize this eventName args k = Some (STATUS_SUCCESS, ev, k')"
  shows "Name (mem k') ev = Some (c_str eventName)"
  using assms
proof (cases rule: EtwProviderEvent_Initialize_cases)
  case refused
  then show ?thesis by simp
next
  case granted
  show ?thesis
    by (rule Name_event_blob [where a = "fresh_addr (mem k)" and args = args])
      (simp_all add: granted)
qed

subsection \<open>FindEvent and AddEvent\<close>

lemma FindEvent_loop_None_iff:
  "FindEvent_loop es eventName m = Some None \<longleftrightarrow>
     (\<forall>e \<in> set es. \<exists>n. Name m e = Some n \<and> n \<noteq> c_str eventName)"
  by (induction es) (auto split: option.splits)

lemma FindEvent_loop_SomeD:
  "FindEvent_loop es eventName m = Some (Some e) \<Longrightarrow>
   e \<in> set es \<and> Name m e = Some (c_str eventName)"
  by (induction es) (auto split: option.splits if_splits)

lemma FindEvent_loop_snoc:
  "FindEvent_loop es eventName m = Some None \<Longrightarrow> Name m e = Some (c_str eventName) \<Longrightarrow>
   FindEvent_loop (es @ [e]) eventName m = Some (Some e)"
  by (induction es) (auto split: option.splits if_splits)

lemma AddEvent_cases:
  assumes "AddEvent this eventName args k = Some (status, p', k')"
  obtains (known) e where "FindEvent this eventName k = Some (Some e)"
      "status = STATUS_SUCCESS" "p' = this" "k' = k"
  | (failed) "FindEvent this eventName k = Some None" "status \<noteq> STATUS_SUCCESS"
      "p' = this" "mem_extends (mem k) (mem k')"
  | (added) ev where "FindEvent this eventName k = Some None" "status = STATUS_SUCCESS"
      "p' = this\<lparr>m_events := m_events this @ [ev]\<rparr>"
      "Name (mem k') ev = Some (c_str eventName)" "mem_extends (mem k) (mem k')"
proof -
  from assms obtain found where f: "FindEvent this eventName k = Some found"
    by (auto simp: AddEvent_def split: bind_splits)
  show ?thesis
  proof (cases found)
    case (Some e)
    with f assms show ?thesis by (intro known [of e]) (auto simp: AddEvent_def)
  next
    case None
    with f assms obtain st ev k1 where
      i: "EtwProviderEvent_Initialize EtwProviderEvent_new eventName args k = Some (st, ev, k1)"
      and r: "if st \<noteq> STATUS_SUCCESS then (status, p', k') = (st, this, k1)
              else (status, p', k') = (st, this\<lparr>m_events := m_events this @ [ev]\<rparr>, k1)"
      by (auto simp: AddEvent_def split: bind_splits if_splits)
    have e: "mem_extends (mem k) (mem k1)"
      using i by (rule EtwProviderEvent_Initialize_mem_extends)
    show ?thesis
    proof (cases "st = STATUS_SUCCESS")
      case True
      with i have "Name (mem k1) ev = Some (c_str eventName)"
        by (simp add: EtwProviderEvent_Initialize_Name)
      with True r e f None show ?thesis by (intro added [of ev]) simp_all
    next
      case False
      with r e f None show ?thesis by (intro failed) simp_all
    qed
  qed
qed

lemma AddEvent_mem_extends:
  assumes "AddEvent this eventName args k = Some (status, p', k')"
  shows "mem_extends (mem k) (mem k')"
  using assms by (cases rule: AddEvent_cases) (simp_all add: mem_extends_refl)

subsection \<open>The field descriptors of WriteEvent\<close>

lemma ExAllocatePoolWithTag_cases:
  obtains (refused) "ExAllocatePoolWithTag n k = (NULL, k\<lparr>pool_calls := Suc (pool_calls k)\<rparr>)"
  | (granted) "ExAllocatePoolWithTag n k =
      (fresh_addr (mem k),
       k\<lparr>mem := (fresh_addr (mem k), replicate n NUL) # mem k, pool_calls := Suc (pool_calls k)\<rparr>)"
  by (cases "pool_grants k (pool_calls k) n")
    (simp_all add: ExAllocatePoolWithTag_granted ExAllocatePoolWithTag_refused)

lemma CreateTraceProperty_cases:
  assumes "CreateTraceProperty t p k = Some (d, k')"
  obtains (refused) n where "SizeOfField t p (mem k) = Some n"
      "d = zero_descriptor" "mem k' = mem k" "etw_written k' = etw_written k"
      "pool_calls k' = Suc (pool_calls k)" "stack_above k' = stack_above k"
  | (granted) n r where "SizeOfField t p (mem k) = Some n"
      "region ((fresh_addr (mem k), replicate n NUL) # mem k) p = Some r" "n \<le> length r"
      "d = EventDataDescCreate (fresh_addr (mem k)) n"
      "load (mem k') = (load (mem k))(fresh_addr (mem k) \<mapsto> take n r)"
      "map fst (mem k') = fresh_addr (mem k) # map fst (mem k)"
      "etw_written k' = etw_written k"
      "pool_calls k' = Suc (pool_calls k)" "stack_above k' = stack_above k"
proof -
  from assms obtain n where n: "SizeOfField t p (mem k) = Some n"
    by (auto simp: CreateTraceProperty_def split: bind_splits)
  show ?thesis
  proof (cases n k rule: ExAllocatePoolWithTag_cases)
    case refused
    with assms n show ?thesis
      by (intro that(1) [of n]) (auto simp: CreateTraceProperty_def)
  next
    case granted
    let ?a = "fresh_addr (mem k)"
    let ?m0 = "(?a, replicate n NUL) # mem k"
    from assms n granted obtain m1 where
      c: "memcpy ?m0 ?a p n = Some m1" and
      d: "d = EventDataDescCreate ?a n" and
      k': "k' = k\<lparr>mem := m1, pool_calls := Suc (pool_calls k)\<rparr>"
      by (auto simp: CreateTraceProperty_def fresh_addr_not_NULL split: bind_splits)
    from c obtain r where r: "region ?m0 p = Some r" "n \<le> length r"
      and s: "store ?m0 ?a 0 (take n r) = Some m1"
      by (auto simp: memcpy_def split: option.splits if_splits)
    have l0: "load ?m0 = (load (mem k))(?a \<mapsto> replicate n NUL)" by (rule load_Cons_fresh)
    from s l0 r(2) have "load m1 = (load (mem k))(?a \<mapsto> take n r)" "map fst m1 = map fst ?m0"
      by (auto simp: patch_all elim!: store_SomeD)
    with n r d k' show ?thesis
      by (intro that(2) [of n r]) simp_all
  qed
qed

lemma SizeOfField_AnsiString_region:
  "SizeOfField EtwFieldAnsiString p m = Some n \<Longrightarrow> \<exists>r. region m p = Some r"
  by (auto simp: SizeOfField_def split: option.splits)

lemma describes_mem_extends:
  assumes "mem_extends m m'" and "describes m s d f"
  shows "describes m' s d f"
proof -
  from assms(2) obtain payload where p: "field_payload m s f = Some payload"
    and l: "load m (Ptr d) = Some payload" and r: "Size d = length payload mod 2 ^ 32"
      "Type d = EVENT_DATA_DESCRIPTOR_TYPE_NONE"
    by (auto simp: describes_iff split: option.splits)
  from assms(1) p have "field_payload m' s f = Some payload" by (rule field_payload_mem_extends)
  moreover from assms(1) l have "load m' (Ptr d) = Some payload" by (rule mem_extends_load)
  ultimately show ?thesis using r by (simp add: describes_iff)
qed

lemma CreateTraceProperty_field:
  assumes c: "CreateTraceProperty (fst (snd f)) (field_source s f) k = Some (d, k')"
    and nz: "Ptr d \<noteq> NULL"
  shows "Ptr d = fresh_addr (mem k) \<and> describes (mem k') s d f \<and>
         mem_extends (mem k) (mem k') \<and> etw_written k' = etw_written k \<and>
         pool_calls k' = Suc (pool_calls k) \<and> stack_above k' = stack_above k \<and>
         (fst (snd f) = EtwFieldAnsiString \<longrightarrow> unat (snd (snd f)) \<in> fst ` set (mem k))"
  using c
proof (cases rule: CreateTraceProperty_cases)
  case (refused n)
  with nz show ?thesis by (simp add: zero_descriptor_def)
next
  case (granted n r)
  let ?a = "fresh_addr (mem k)"
  obtain fieldName fieldType fieldValue where f: "f = (fieldName, fieldType, fieldValue)"
    by (cases f)
  have e: "mem_extends (mem k) (mem k')"
    using granted(5) by (rule mem_extends_fresh)
  have str: "unat fieldValue \<in> fst ` set (mem k)" if "fieldType = EtwFieldAnsiString"
  proof -
    from that granted(1) have "\<exists>r. region (mem k) (Pointer (unat fieldValue)) = Some r"
      by (intro SizeOfField_AnsiString_region [of _ _ n]) (simp add: f field_source_def)
    then show ?thesis by (auto dest: load_keys)
  qed
  have reg: "region (mem k') (field_source s f) = Some r"
  proof (cases "fieldType = EtwFieldAnsiString")
    case True
    with str have "unat fieldValue \<noteq> ?a" using fresh_addr_not_key [of "mem k"] by metis
    with granted(2,5) True show ?thesis
      by (simp add: f field_source_def load_Cons_fresh)
  next
    case False
    with granted(2) show ?thesis by (simp add: f field_source_def)
  qed
  from e granted(1) have "SizeOfField (fst (snd f)) (field_source s f) (mem k') = Some n"
    by (rule SizeOfField_mem_extends)
  with reg granted(3) have "field_payload (mem k') s f = Some (take n r)"
    by (simp add: field_payload_def)
  moreover have "load (mem k') (Ptr d) = Some (take n r)"
    by (simp add: granted(4,5) EventDataDescCreate_def)
  moreover have "Size d = length (take n r) mod 2 ^ 32" "Type d = EVENT_DATA_DESCRIPTOR_TYPE_NONE"
    using granted(3) by (simp_all add: granted(4) EventDataDescCreate_def)
  ultimately have "describes (mem k') s d f" by (simp add: describes_iff)
  moreover have "Ptr d = ?a" by (simp add: granted(4) EventDataDescCreate_def)
  ultimately show ?thesis using e granted(7,8,9) str by (simp add: f)
qed

lemma WriteEvent_loop_SomeD:
  assumes "WriteEvent_loop args i arr k = Some (Some descs, k')"
    and "i + 2 + length args \<le> length arr"
  shows "length descs = length arr \<and> take (i + 2) descs = take (i + 2) arr \<and>
         (\<forall>j < length args.
            describes (mem k') (stack_above k (pool_calls k + j)) (descs ! (i + 2 + j))
              (args ! j) \<and>
            Ptr (descs ! (i + 2 + j)) \<notin> fst ` set (mem k) \<and>
            Ptr (descs ! (i + 2 + j)) \<noteq> NULL \<and>
            (fst (snd (args ! j)) = EtwFieldAnsiString \<longrightarrow>
               Ptr (descs ! (i + 2 + j)) \<noteq> unat (snd (snd (args ! j))))) \<and>
         mem_extends (mem k) (mem k') \<and> etw_written k' = etw_written k"
  using assms
proof (induction args i arr k rule: WriteEvent_loop.induct)
  case (1 i arr k)
  then show ?case by (simp add: mem_extends_refl)
next
  case (2 fieldName fieldType fieldValue args i arr k)
  let ?f = "(fieldName, fieldType, fieldValue)"
  from "2.prems"(1) obtain d k1 where
    c: "CreateTraceProperty fieldType
          (if fieldType \<noteq> EtwFieldAnsiString
           then AddressOfLocal fieldValue (stack_above k (pool_calls k))
           else Pointer (unat fieldValue)) k = Some (d, k1)"
    and nz: "Ptr d \<noteq> NULL"
    and l: "WriteEvent_loop args (i + 1) (arr[i + 2 := d]) k1 = Some (Some descs, k')"
    by (auto split: bind_splits if_splits)
  let ?s = "stack_above k (pool_calls k)"
  from c have c': "CreateTraceProperty (fst (snd ?f)) (field_source ?s ?f) k = Some (d, k1)"
    by (simp add: field_source_def)
  note st = CreateTraceProperty_field [OF c' nz]
  from st have e1: "mem_extends (mem k) (mem k1)" by simp
  from st have fr: "pool_calls k1 = Suc (pool_calls k)" "stack_above k1 = stack_above k"
    by simp_all
  from "2.prems"(2) have len: "i + 1 + 2 + length args \<le> length (arr[i + 2 := d])" by simp
  from c nz have x: "(d, k1) = (d, k1)" "\<not> Ptr d = NULL" by simp_all
  note ih = "2.IH" [OF c x(1) nz l len]
  from ih have e2: "mem_extends (mem k1) (mem k')" by simp
  have ld: "length descs = length arr" using ih by simp
  have tk: "take (i + 3) descs = take (i + 3) (arr[i + 2 := d])"
    using ih by (simp add: numeral_3_eq_3)
  have "descs ! (i + 2) = take (i + 3) descs ! (i + 2)" by simp
  also have "\<dots> = (arr[i + 2 := d]) ! (i + 2)" by (simp only: tk) simp
  also have "\<dots> = d" using "2.prems"(2) by simp
  finally have d: "descs ! (i + 2) = d" .
  have "take (i + 2) descs = take (i + 2) (take (i + 3) descs)" by (simp add: min_def)
  also have "\<dots> = take (i + 2) arr" by (simp only: tk) (simp add: min_def)
  finally have tk2: "take (i + 2) descs = take (i + 2) arr" .
  have fields: "describes (mem k') (stack_above k (pool_calls k + j)) (descs ! (i + 2 + j))
              ((?f # args) ! j) \<and>
            Ptr (descs ! (i + 2 + j)) \<notin> fst ` set (mem k) \<and>
            Ptr (descs ! (i + 2 + j)) \<noteq> NULL \<and>
            (fst (snd ((?f # args) ! j)) = EtwFieldAnsiString \<longrightarrow>
               Ptr (descs ! (i + 2 + j)) \<noteq> unat (snd (snd ((?f # args) ! j))))"
    if j: "j < length (?f # args)" for j
  proof (cases j)
    case 0
    from st have "describes (mem k1) ?s d ?f" by simp
    with e2 have "describes (mem k') ?s d ?f" by (rule describes_mem_extends)
    moreover from st have nk: "Ptr d \<notin> fst ` set (mem k)"
      using fresh_addr_not_key [of "mem k"] by simp
    moreover from st have "fieldType = EtwFieldAnsiString \<longrightarrow> unat fieldValue \<in> fst ` set (mem k)"
      by simp
    with nk have "fieldType = EtwFieldAnsiString \<longrightarrow> Ptr d \<noteq> unat fieldValue"
      by metis
    ultimately show ?thesis using nz 0 d by simp
  next
    case (Suc j')
    with j have "j' < length args" by simp
    with ih have a: "describes (mem k') (stack_above k1 (pool_calls k1 + j'))
          (descs ! (i + 1 + 2 + j')) (args ! j')"
      and b: "Ptr (descs ! (i + 1 + 2 + j')) \<notin> fst ` set (mem k1)"
      and c: "Ptr (descs ! (i + 1 + 2 + j')) \<noteq> NULL"
      and d: "fst (snd (args ! j')) = EtwFieldAnsiString \<longrightarrow>
               Ptr (descs ! (i + 1 + 2 + j')) \<noteq> unat (snd (snd (args ! j')))"
      by simp_all
    from b e1 have "Ptr (descs ! (i + 1 + 2 + j')) \<notin> fst ` set (mem k)"
      by (auto dest: mem_extends_keys)
    with a c d Suc show ?thesis by (simp add: fr)
  qed
  have "mem_extends (mem k) (mem k')" using e1 e2 by (rule mem_extends_trans)
  moreover have "etw_written k' = etw_written k" using ih st by simp
  ultimately show ?case using ld tk2 fields by simp
qed

lemma WriteEvent_loop_mem_extends:
  "WriteEvent_loop args i arr k = Some (r, k') \<Longrightarrow>
   mem_extends (mem k) (mem k') \<and> etw_written k' = etw_written k"
proof (induction args i arr k rule: WriteEvent_loop.induct)
  case (1 i arr k)
  then show ?case by (simp add: mem_extends_refl)
next
  case (2 fieldName fieldType fieldValue args i arr k)
  let ?p = "if fieldType \<noteq> EtwFieldAnsiString
            then AddressOfLocal fieldValue (stack_above k (pool_calls k))
            else Pointer (unat fieldValue)"
  from "2.prems" obtain d k1 where
    c: "CreateTraceProperty fieldType ?p k = Some (d, k1)"
    and l: "if Ptr d = NULL then (r, k') = (None, k1)
            else WriteEvent_loop args (i + 1) (arr[i + 2 := d]) k1 = Some (r, k')"
    by (auto split: bind_splits if_splits)
  from c have e1: "mem_extends (mem k) (mem k1) \<and> etw_written k1 = etw_written k"
    by (cases rule: CreateTraceProperty_cases) (auto simp: mem_extends_refl intro: mem_extends_fresh)
  show ?case
  proof (cases "Ptr d = NULL")
    case True
    with l e1 show ?thesis by simp
  next
    case False
    with l have l': "WriteEvent_loop args (i + 1) (arr[i + 2 := d]) k1 = Some (r, k')" by simp
    from c False have x: "(d, k1) = (d, k1)" by simp
    from "2.IH" [OF c x False l'] e1 show ?thesis
      by (auto intro: mem_extends_trans)
  qed
qed

lemma mem_extends_alloc:
  "mem_extends (mem k) (mem (snd (ExAllocatePoolWithTag n k)))"
  by (cases n k rule: ExAllocatePoolWithTag_cases)
    (auto simp: mem_extends_refl load_Cons_fresh intro: mem_extends_fresh)

lemma etw_written_alloc:
  "etw_written (snd (ExAllocatePoolWithTag n k)) = etw_written k"
  by (cases n k rule: ExAllocatePoolWithTag_cases) auto

lemma stack_above_alloc:
  "stack_above (snd (ExAllocatePoolWithTag n k)) = stack_above k \<and>
   pool_calls (snd (ExAllocatePoolWithTag n k)) = Suc (pool_calls k)"
  by (cases n k rule: ExAllocatePoolWithTag_cases) auto

lemma FindEvent_loop_find:
  "FindEvent_loop es eventName m = Some (Some e) \<Longrightarrow>
   find (\<lambda>e. Name m e = Some (c_str eventName)) es = Some e"
  by (induction es) (auto split: option.splits if_splits)

lemma WriteEvent_unfold:
  assumes "FindEvent this eventName k = Some (Some event)"
    and "ExAllocatePoolWithTag ((length args + 2) * 16) k = (a, k1)"
  shows "WriteEvent this eventName ed args k =
     (if a = NULL then Some (STATUS_UNSUCCESSFUL, k1)
      else case WriteEvent_loop args 0
             ((replicate (length args + 2) zero_descriptor)
                [0 := m_providerMetadataDesc this, 1 := MetadataDescriptor event]) k1 of
             None \<Rightarrow> None
           | Some (None, k2) \<Rightarrow> Some (STATUS_UNSUCCESSFUL, k2)
           | Some (Some descs, k2) \<Rightarrow>
               Some (EtwWrite (m_regHandle this) ed (length args + 2) descs k2))"
  using assms by (simp add: WriteEvent_def Let_def split: option.splits bind_splits)

lemma WriteEvent_mem_extends:
  assumes "WriteEvent this eventName ed args k = Some (status, k')"
  shows "mem_extends (mem k) (mem k')"
proof -
  from assms obtain found where f: "FindEvent this eventName k = Some found"
    by (auto simp: WriteEvent_def split: bind_splits)
  show ?thesis
  proof (cases found)
    case None
    with f assms show ?thesis by (simp add: WriteEvent_def mem_extends_refl)
  next
    case (Some event)
    obtain a k1 where a: "ExAllocatePoolWithTag ((length args + 2) * 16) k = (a, k1)"
      by (cases "ExAllocatePoolWithTag ((length args + 2) * 16) k")
    have e1: "mem_extends (mem k) (mem k1)"
      using mem_extends_alloc [of k "(length args + 2) * 16"] a by simp
    show ?thesis
    proof (cases "a = NULL")
      case True
      with f Some a assms e1 show ?thesis by (simp add: WriteEvent_def)
    next
      case False
      note u = WriteEvent_unfold [OF f [unfolded Some] a, of ed]
      from u assms False obtain filled k2 where
        l: "WriteEvent_loop args 0
              ((replicate (length args + 2) zero_descriptor)
                 [0 := m_providerMetadataDesc this, 1 := MetadataDescriptor event]) k1
            = Some (filled, k2)"
        and r: "mem k' = mem k2"
        by (cases "WriteEvent_loop args 0
              ((replicate (length args + 2) zero_descriptor)
                 [0 := m_providerMetadataDesc this, 1 := MetadataDescriptor event]) k1")
          (auto simp: EtwWrite_def Let_def split: option.splits)
      from l have "mem_extends (mem k1) (mem k2)"
        by (simp add: WriteEvent_loop_mem_extends)
      with e1 r show ?thesis by (auto intro: mem_extends_trans)
    qed
  qed
qed

lemma WriteEvent_SUCCESS:
  assumes "WriteEvent this eventName ed args k = Some (STATUS_SUCCESS, k')"
  shows "\<exists>event descs.
           FindEvent this eventName k = Some (Some event) \<and>
           etw_written k' = etw_written k @
             [\<lparr>RegHandle = m_regHandle this, EventDescriptor = ed,
               UserDataCount = length args + 2, UserData = descs\<rparr>] \<and>
           length descs = length args + 2 \<and>
           descs ! 0 = m_providerMetadataDesc this \<and>
           descs ! 1 = m_eventMetadataDesc event \<and>
           (\<forall>j < length args.
              describes (mem k') (stack_above k (pool_calls k + 1 + j)) (descs ! (j + 2))
                (args ! j) \<and>
              Ptr (descs ! (j + 2)) \<notin> fst ` set (mem k) \<and>
              Ptr (descs ! (j + 2)) \<noteq> NULL \<and>
              (fst (snd (args ! j)) = EtwFieldAnsiString \<longrightarrow>
                 Ptr (descs ! (j + 2)) \<noteq> unat (snd (snd (args ! j))))) \<and>
           mem_extends (mem k) (mem k')"
proof -
  let ?n = "length args + 2"
  from assms obtain found where f: "FindEvent this eventName k = Some found"
    by (auto simp: WriteEvent_def split: bind_splits)
  from f assms obtain event where ev: "found = Some event"
    by (cases found) (auto simp: WriteEvent_def)
  obtain a k1 where a: "ExAllocatePoolWithTag (?n * 16) k = (a, k1)"
    by (cases "ExAllocatePoolWithTag (?n * 16) k")
  have e1: "mem_extends (mem k) (mem k1)" and w1: "etw_written k1 = etw_written k"
    and fr: "stack_above k1 = stack_above k" "pool_calls k1 = Suc (pool_calls k)"
    using mem_extends_alloc [of k "?n * 16"] etw_written_alloc [of "?n * 16" k]
      stack_above_alloc [of "?n * 16" k] a by simp_all
  let ?arr = "(replicate ?n zero_descriptor)
                 [0 := m_providerMetadataDesc this, 1 := MetadataDescriptor event]"
  note u = WriteEvent_unfold [OF f [unfolded ev] a, of ed]
  from u assms have nz: "a \<noteq> NULL"
    by (auto split: if_splits)
  from u assms nz obtain descs k2 where
    l: "WriteEvent_loop args 0 ?arr k1 = Some (Some descs, k2)"
    and w: "EtwWrite (m_regHandle this) ed ?n descs k2 = (STATUS_SUCCESS, k')"
    by (cases "WriteEvent_loop args 0 ?arr k1") (auto split: option.splits)
  from w have k': "mem k' = mem k2"
    "etw_written k' = etw_written k2 @
       [\<lparr>RegHandle = m_regHandle this, EventDescriptor = ed,
         UserDataCount = ?n, UserData = descs\<rparr>]"
    by (auto simp: EtwWrite_def Let_def)
  have len: "0 + 2 + length args \<le> length ?arr" by simp
  note loop = WriteEvent_loop_SomeD [OF l len]
  from loop have t2: "take (0 + 2) descs = take (0 + 2) ?arr" by (rule conjunct2 [THEN conjunct1])
  have "descs ! 0 = take (0 + 2) descs ! 0" "descs ! 1 = take (0 + 2) descs ! 1"
    by simp_all
  then have d01: "descs ! 0 = m_providerMetadataDesc this" "descs ! 1 = m_eventMetadataDesc event"
    unfolding t2 by (simp_all add: MetadataDescriptor_def)
  have flds: "describes (mem k') (stack_above k (pool_calls k + 1 + j)) (descs ! (j + 2))
                (args ! j) \<and>
              Ptr (descs ! (j + 2)) \<notin> fst ` set (mem k) \<and>
              Ptr (descs ! (j + 2)) \<noteq> NULL \<and>
              (fst (snd (args ! j)) = EtwFieldAnsiString \<longrightarrow>
                 Ptr (descs ! (j + 2)) \<noteq> unat (snd (snd (args ! j))))"
    if "j < length args" for j
  proof -
    from loop that have
      a: "describes (mem k2) (stack_above k1 (pool_calls k1 + j)) (descs ! (0 + 2 + j))
            (args ! j)" and
      b: "Ptr (descs ! (0 + 2 + j)) \<notin> fst ` set (mem k1)" and
      c: "Ptr (descs ! (0 + 2 + j)) \<noteq> NULL" and
      d: "fst (snd (args ! j)) = EtwFieldAnsiString \<longrightarrow>
                 Ptr (descs ! (0 + 2 + j)) \<noteq> unat (snd (snd (args ! j)))"
      by simp_all
    from b e1 have "Ptr (descs ! (0 + 2 + j)) \<notin> fst ` set (mem k)"
      by (auto dest: mem_extends_keys)
    with a c d show ?thesis by (simp add: k' fr add.commute)
  qed
  have "mem_extends (mem k1) (mem k2)" using loop by simp
  with e1 have "mem_extends (mem k) (mem k')"
    unfolding k' by (rule mem_extends_trans)
  moreover have "length descs = ?n" using loop by simp
  moreover have "etw_written k' = etw_written k @
       [\<lparr>RegHandle = m_regHandle this, EventDescriptor = ed,
         UserDataCount = ?n, UserData = descs\<rparr>]"
    using loop w1 by (simp add: k')
  ultimately show ?thesis using f ev d01 flds by blast
qed

subsection \<open>The provider metadata blob\<close>

lemma EtwRegister_pool: "EtwRegister g k = (status, h, k1) \<Longrightarrow> mem k1 = mem k"
  by (auto simp: EtwRegister_def Let_def split: prod.splits if_splits)

lemma EtwProvider_Initialize_SomeD:
  assumes r: "EtwProvider_Initialize this providerName k = Some (status, p, k')"
  shows "m_events p = m_events this \<and> m_guid p = m_guid this \<and>
         mem_extends (mem k) (mem k') \<and>
         (status = STATUS_SUCCESS \<longrightarrow>
            length (c_str providerName) + 1 + 2 < 65536 \<and>
            m_providerMetadataDesc p =
              \<lparr>Ptr = fresh_addr (mem k), Size = length (c_str providerName) + 1 + 2,
               Type = EVENT_DATA_DESCRIPTOR_TYPE_PROVIDER_METADATA\<rparr> \<and>
            load (mem k') = (load (mem k))(fresh_addr (mem k) \<mapsto> provider_blob providerName))"
proof -
  obtain st h k1 where reg: "EtwRegister (m_guid this) k = (st, h, k1)"
    by (cases "EtwRegister (m_guid this) k")
  then have p1: "mem k1 = mem k" by (rule EtwRegister_pool)
  show ?thesis
  proof (cases "st = STATUS_SUCCESS")
    case False
    with r reg p1 show ?thesis
      by (auto simp: EtwProvider_Initialize_def mem_extends_refl)
  next
    case True
    let ?n = "unat (providerMetadataLength providerName)"
    let ?a = "fresh_addr (mem k)"
    let ?b0 = "replicate ?n NUL"
    show ?thesis
    proof (cases ?n k1 rule: ExAllocatePoolWithTag_cases)
      case refused
      with r reg True p1 show ?thesis
        by (auto simp: EtwProvider_Initialize_def Let_def mem_extends_refl)
    next
      case granted
      let ?m0 = "(?a, ?b0) # mem k"
      let ?k2 = "k1\<lparr>mem := ?m0, pool_calls := Suc (pool_calls k1)\<rparr>"
      from r reg True granted p1 obtain m1 m2 m3 st2 where
        s1: "memset0 ?m0 ?a ?n = Some m1" and
        s2: "store m1 ?a 0 (le_bytes 2 ?n) = Some m2" and
        s3: "strcpy m2 ?a 2 providerName = Some m3" and
        res: "status = st2" "mem k' = m3" "m_events p = m_events this" "m_guid p = m_guid this"
          "st2 = STATUS_SUCCESS \<longrightarrow> m_providerMetadataDesc p =
             (EventDataDescCreate ?a ?n)\<lparr>Type := EVENT_DATA_DESCRIPTOR_TYPE_PROVIDER_METADATA\<rparr>"
        by (auto simp: EtwProvider_Initialize_def Let_def fresh_addr_not_NULL
            split: bind_splits if_splits)
      have l0: "load ?m0 = (load (mem k))(?a \<mapsto> ?b0)" by (rule load_Cons_fresh)
      from s1 l0 have m1: "load m1 = (load (mem k))(?a \<mapsto> ?b0)"
        by (auto simp: memset0_def patch_all elim!: store_SomeD)
      from s2 m1 have l2: "2 \<le> ?n"
        and m2: "load m2 = (load (mem k))(?a \<mapsto> patch ?b0 0 (le_bytes 2 ?n))"
        by (auto simp: length_le_bytes elim!: store_SomeD)
      have len2: "length (patch ?b0 0 (le_bytes 2 ?n)) = ?n"
        using l2 patch_length [of 0 "le_bytes 2 ?n" ?b0] by (simp add: length_le_bytes)
      from s3 m2 len2 have l3: "2 + length (c_str providerName @ [NUL]) \<le> ?n"
        and m3: "load m3 = (load (mem k))
                   (?a \<mapsto> patch (patch ?b0 0 (le_bytes 2 ?n)) 2 (c_str providerName @ [NUL]))"
        by (auto simp: strcpy_def elim!: store_SomeD)
      have p3: "patch (patch ?b0 0 (le_bytes 2 ?n)) 2 (c_str providerName @ [NUL])
                  = patch ?b0 0 (le_bytes 2 ?n @ c_str providerName @ [NUL])"
        using l3 by (intro patch_adjacent') (simp_all add: length_le_bytes)
      have n: "?n = (length (c_str providerName) + 1 + 2) mod 65536"
        unfolding providerMetadataLength_def strlen_def by (simp only: unat_of_nat) simp
      have "length (c_str providerName) + 1 + 2 \<le> (length (c_str providerName) + 1 + 2) mod 65536"
        using l3 unfolding n by simp
      then have small: "length (c_str providerName) + 1 + 2 < 65536"
        by (rule le_mod_imp_less) simp
      then have n': "?n = length (c_str providerName) + 1 + 2" unfolding n by simp
      have blob: "le_bytes 2 ?n @ c_str providerName @ [NUL] = provider_blob providerName"
        unfolding n' by (simp add: provider_blob_def)
      have "length (provider_blob providerName) = length ?b0"
        unfolding n' by (simp add: provider_blob_def length_le_bytes)
      then have p4: "patch ?b0 0 (provider_blob providerName) = provider_blob providerName"
        by (rule patch_all)
      have m3': "load m3 = (load (mem k))(?a \<mapsto> provider_blob providerName)"
        by (simp only: m3 p3 blob p4)
      have "EventDataDescCreate ?a ?n =
          \<lparr>Ptr = ?a, Size = length (c_str providerName) + 1 + 2, Type = EVENT_DATA_DESCRIPTOR_TYPE_NONE\<rparr>"
        unfolding n' using small by (simp add: EventDataDescCreate_def)
      moreover have "mem_extends (mem k) (mem k')"
        using m3' res(2) by (auto intro: mem_extends_fresh)
      ultimately show ?thesis using res m3' small by simp
    qed
  qed
qed

subsection \<open>Event names stay distinct\<close>

lemma map_Name_mem_extends:
  assumes "mem_extends m m'" and "None \<notin> set (map (Name m) es)"
  shows "map (Name m') es = map (Name m) es"
  using assms(2)
proof (induction es)
  case Nil
  then show ?case by simp
next
  case (Cons e es)
  then obtain n where "Name m e = Some n" by (cases "Name m e") auto
  with assms(1) have "Name m' e = Name m e" by (simp add: Name_mem_extends)
  with Cons show ?case by simp
qed

lemma unique_event_names_mem_extends:
  "mem_extends m m' \<Longrightarrow> unique_event_names m p \<Longrightarrow> unique_event_names m' p"
  by (simp add: unique_event_names_def map_Name_mem_extends)

lemma FindEvent_loop_None_names:
  "FindEvent_loop es eventName m = Some None \<Longrightarrow>
   None \<notin> set (map (Name m) es) \<and> Some (c_str eventName) \<notin> set (map (Name m) es)"
  by (auto simp: FindEvent_loop_None_iff)

lemma AddEvent_unique_event_names:
  assumes a: "AddEvent this eventName args k = Some (status, p', k')"
    and u: "unique_event_names (mem k) this"
  shows "unique_event_names (mem k') p'"
  using a
proof (cases rule: AddEvent_cases)
  case (known e)
  with u show ?thesis by simp
next
  case failed
  with u show ?thesis by (simp add: unique_event_names_mem_extends)
next
  case (added ev)
  from u have v: "None \<notin> set (map (Name (mem k)) (m_events this))"
    by (simp add: unique_event_names_def)
  from added(5) v have eq: "map (Name (mem k')) (m_events this) = map (Name (mem k)) (m_events this)"
    by (rule map_Name_mem_extends)
  from added(1) FindEvent_loop_None_names [of "m_events this" eventName "mem k"]
  have "Some (c_str eventName) \<notin> set (map (Name (mem k)) (m_events this))"
    by (simp add: FindEvent_def)
  then have notin: "Some (c_str eventName) \<notin> Name (mem k) ` set (m_events this)"
    by simp
  have "map (Name (mem k')) (m_events p')
          = map (Name (mem k')) (m_events this) @ [Name (mem k') ev]"
    by (simp add: added(3))
  also have "\<dots> = map (Name (mem k)) (m_events this) @ [Some (c_str eventName)]"
    by (simp only: eq added(4))
  finally have m: "map (Name (mem k')) (m_events p')
          = map (Name (mem k)) (m_events this) @ [Some (c_str eventName)]" .
  show ?thesis
    unfolding unique_event_names_def m using u notin by (simp add: unique_event_names_def)
qed

lemma AddEvent_guid:
  assumes "AddEvent this eventName args k = Some (status, p', k')"
  shows "m_guid p' = m_guid this"
  using assms by (cases rule: AddEvent_cases) simp_all

lemma FindProvider_loop_less:
  "FindProvider_loop ps g i = Some j \<Longrightarrow> i \<le> j \<and> j < i + length ps"
  by (induction ps g i rule: FindProvider_loop.induct) (auto split: if_splits)

lemma FindProvider_less: "FindProvider cache g = Some j \<Longrightarrow> j < length cache"
  using FindProvider_loop_less [of cache g 0 j] by (simp add: FindProvider_def)

lemma EtwTrace_emit_unique_event_names:
  assumes r: "EtwTrace_emit i eventName eventLevel keyword args (cache, k) = Some (status, cache', k')"
    and i: "i < length cache"
    and u: "\<forall>p \<in> set cache. unique_event_names (mem k) p"
  shows "\<forall>p \<in> set cache'. unique_event_names (mem k') p"
proof -
  from r obtain st p1 k1 where
    a: "AddEvent (cache ! i) eventName args k = Some (st, p1, k1)"
    and c: "cache' = cache[i := p1]"
    and w: "st \<noteq> STATUS_SUCCESS \<and> k' = k1 \<or>
            (\<exists>st2. WriteEvent p1 eventName (CreateEventDescriptor keyword eventLevel) args k1
                     = Some (st2, k'))"
    by (auto simp: EtwTrace_emit_def split: bind_splits if_splits)
  have e1: "mem_extends (mem k) (mem k1)" using a by (rule AddEvent_mem_extends)
  have e2: "mem_extends (mem k1) (mem k')"
    using w by (auto simp: mem_extends_refl dest: WriteEvent_mem_extends)
  from i u have "unique_event_names (mem k) (cache ! i)" by simp
  with a have u1: "unique_event_names (mem k1) p1" by (rule AddEvent_unique_event_names)
  show ?thesis
  proof
    fix p assume "p \<in> set cache'"
    then have "p = p1 \<or> p \<in> set cache"
      unfolding c using set_update_subset_insert [of cache i p1] by auto
    then have "unique_event_names (mem k1) p"
      using u1 u e1 by (auto intro: unique_event_names_mem_extends)
    with e2 show "unique_event_names (mem k') p" by (rule unique_event_names_mem_extends)
  qed
qed

lemma EtwTrace_unique_event_names:
  assumes r: "EtwTrace providerName providerGuid eventName eventLevel keyword args (cache, k)
                = Some (status, cache', k')"
    and u: "\<forall>p \<in> set cache. unique_event_names (mem k) p"
  shows "\<forall>p \<in> set cache'. unique_event_names (mem k') p"
proof (cases "KeGetCurrentIrql k > PASSIVE_LEVEL")
  case True
  with r u show ?thesis by (simp add: EtwTrace_def)
next
  case False
  show ?thesis
  proof (cases "FindProvider cache providerGuid")
    case (Some i)
    with r False have "EtwTrace_emit i eventName eventLevel keyword args (cache, k)
                         = Some (status, cache', k')"
      by (simp add: EtwTrace_def)
    then show ?thesis using FindProvider_less [OF Some] u
      by (rule EtwTrace_emit_unique_event_names)
  next
    case None
    with r False obtain st p1 k1 where
      init: "EtwProvider_Initialize (EtwProvider_new providerGuid) providerName k = Some (st, p1, k1)"
      and rest: "if st \<noteq> STATUS_SUCCESS then (status, cache', k') = (st, cache, k1)
                 else EtwTrace_emit (length cache) eventName eventLevel keyword args
                        (cache @ [p1], k1) = Some (status, cache', k')"
      by (auto simp: EtwTrace_def split: bind_splits if_splits)
    from EtwProvider_Initialize_SomeD [OF init]
    have e: "mem_extends (mem k) (mem k1)" and ev: "m_events p1 = []"
      by (simp_all add: EtwProvider_new_def)
    from u e ev have u1: "\<forall>p \<in> set (cache @ [p1]). unique_event_names (mem k1) p"
      by (auto simp: unique_event_names_def [of _ p1] intro: unique_event_names_mem_extends)
    show ?thesis
    proof (cases "st = STATUS_SUCCESS")
      case True
      with rest have "EtwTrace_emit (length cache) eventName eventLevel keyword args
                        (cache @ [p1], k1) = Some (status, cache', k')" by simp
      then show ?thesis using _ u1
        by (rule EtwTrace_emit_unique_event_names) simp
    next
      case False
      with rest u1 show ?thesis by simp
    qed
  qed
qed

subsection \<open>Reachable states and provider histories\<close>

lemma Name_cong_load:
  "load m' (Ptr (m_eventMetadataDesc e)) = load m (Ptr (m_eventMetadataDesc e)) \<Longrightarrow>
   Name m' e = Name m e"
  by (simp add: Name_def)

lemma reachable_unique_event_names:
  "reachable st \<Longrightarrow> \<forall>p \<in> set (fst st). unique_event_names (mem (snd st)) p"
proof (induction rule: reachable.induct)
  case (boot k)
  show ?case by simp
next
  case (emit st providerName providerGuid eventName eventLevel keyword args status st')
  obtain cache k where st: "st = (cache, k)" by (cases st)
  obtain cache' k' where st': "st' = (cache', k')" by (cases st')
  from emit.hyps(2) emit.IH show ?case
    unfolding st st' fst_conv snd_conv by (rule EtwTrace_unique_event_names)
next
  case (environment g_ProviderCache k k')
  show ?case
  proof
    fix p assume p: "p \<in> set (fst (g_ProviderCache, k'))"
    with environment.hyps(2) have "\<forall>e \<in> set (m_events p).
        load (mem k') (Ptr (m_eventMetadataDesc e)) = load (mem k) (Ptr (m_eventMetadataDesc e))"
      by (simp add: list_all_iff)
    then have "\<forall>e \<in> set (m_events p). Name (mem k') e = Name (mem k) e"
      by (blast intro: Name_cong_load)
    then have m: "map (Name (mem k')) (m_events p) = map (Name (mem k)) (m_events p)"
      by simp
    from p environment.IH have "unique_event_names (mem k) p" by simp
    then show "unique_event_names (mem (snd (g_ProviderCache, k'))) p"
      unfolding unique_event_names_def snd_conv m .
  qed
qed

lemma count_distinct_one:
  "distinct (map f xs) \<Longrightarrow> x \<in> set xs \<Longrightarrow> length (filter (\<lambda>y. f y = f x) xs) = 1"
proof (induction xs)
  case Nil
  then show ?case by simp
next
  case (Cons a xs)
  show ?case
  proof (cases "x = a")
    case True
    from Cons.prems(1) have "f a \<notin> f ` set xs" by simp
    then have "\<forall>y \<in> set xs. f y \<noteq> f a" by (metis imageI)
    then have "filter (\<lambda>y. f y = f a) xs = []" by (simp add: filter_empty_conv)
    with True show ?thesis by simp
  next
    case False
    with Cons.prems have x: "x \<in> set xs" by simp
    from Cons.prems(1) have "f a \<notin> f ` set xs" by simp
    with x have "f a \<noteq> f x" by (metis imageI)
    moreover from Cons.IH Cons.prems(1) x have "length (filter (\<lambda>y. f y = f x) xs) = 1" by simp
    ultimately show ?thesis by simp
  qed
qed

lemma AddEvent_again:
  assumes a: "AddEvent this eventName args k = Some (STATUS_SUCCESS, p1, k1)"
  shows "\<exists>e. FindEvent p1 eventName k1 = Some (Some e)"
  using a
proof (cases rule: AddEvent_cases)
  case (known e)
  then show ?thesis by auto
next
  case failed
  then show ?thesis by simp
next
  case (added ev)
  from added(1) have "FindEvent_loop (m_events this) eventName (mem k) = Some None"
    by (simp add: FindEvent_def)
  with added(5) have "FindEvent_loop (m_events this) eventName (mem k1) = Some None"
    by (rule FindEvent_loop_mem_extends)
  then have "FindEvent_loop (m_events this @ [ev]) eventName (mem k1) = Some (Some ev)"
    using added(4) by (rule FindEvent_loop_snoc)
  then show ?thesis by (simp add: FindEvent_def added(3))
qed

lemma named_in_mem_extends:
  assumes "mem_extends m m'" and "\<forall>e \<in> set es. \<exists>n \<in> N. Name m e = Some n"
  shows "\<forall>e \<in> set es. \<exists>n \<in> N. Name m' e = Some n"
proof
  fix e assume "e \<in> set es"
  with assms(2) obtain n where n: "n \<in> N" "Name m e = Some n" by blast
  from assms(1) n(2) have "Name m' e = Some n" by (rule Name_mem_extends)
  with n(1) show "\<exists>n \<in> N. Name m' e = Some n" by blast
qed

lemma named_in_mono:
  "\<forall>e \<in> set es. \<exists>n \<in> N. Name m e = Some n \<Longrightarrow> N \<subseteq> N' \<Longrightarrow>
   \<forall>e \<in> set es. \<exists>n \<in> N'. Name m e = Some n"
  by blast

lemma provider_history_names:
  "provider_history this k N \<Longrightarrow>
   \<forall>e \<in> set (m_events this). \<exists>n \<in> N. Name (mem k) e = Some n"
proof (induction rule: provider_history.induct)
  case (created this k)
  then show ?case by simp
next
  case (added this k N eventName args status this' k')
  let ?N = "insert (c_str eventName) N"
  have e: "mem_extends (mem k) (mem k')"
    using added.hyps(2) by (rule AddEvent_mem_extends)
  from e added.IH have "\<forall>e \<in> set (m_events this). \<exists>n \<in> N. Name (mem k') e = Some n"
    by (rule named_in_mem_extends)
  then have old: "\<forall>e \<in> set (m_events this). \<exists>n \<in> ?N. Name (mem k') e = Some n"
    by (rule named_in_mono) blast
  from added.hyps(2) show ?case
  proof (cases rule: AddEvent_cases)
    case (known e)
    with old show ?thesis by simp
  next
    case failed
    with old show ?thesis by simp
  next
    case (added ev)
    have "\<exists>n \<in> ?N. Name (mem k') ev = Some n" using added(4) by simp
    with old show ?thesis unfolding added(3) by simp
  qed
next
  case (written this k N eventName eventDescriptor args status k')
  from written.hyps(2) have "mem_extends (mem k) (mem k')" by (rule WriteEvent_mem_extends)
  then show ?case using written.IH by (rule named_in_mem_extends)
next
  case (elsewhere this k N k')
  from elsewhere.hyps(2) have "\<forall>e \<in> set (m_events this).
      load (mem k') (Ptr (m_eventMetadataDesc e)) = load (mem k) (Ptr (m_eventMetadataDesc e))"
    by (simp add: list_all_iff)
  then have "\<forall>e \<in> set (m_events this). Name (mem k') e = Name (mem k) e"
    by (blast intro: Name_cong_load)
  with elsewhere.IH show ?case by simp
qed

text \<open>
  A name that was passed to no \<^verbatim>\<open>AddEvent\<close> of the provider is carried by none
  of its events; in a reachable state, a name that no builder carries is unknown.
\<close>

lemma unknown_event_iff:
  "unknown_event m p eventName \<longleftrightarrow>
     (\<forall>e \<in> set (m_events p). \<exists>n. Name m e = Some n \<and> n \<noteq> c_str eventName)"
  by (auto simp: unknown_event_def list_all_iff split: option.splits)

lemma provider_history_unknown_event:
  assumes "provider_history this k N" and "c_str eventName \<notin> N"
  shows "unknown_event (mem k) this eventName"
  unfolding unknown_event_iff
proof
  fix e assume "e \<in> set (m_events this)"
  with provider_history_names [OF assms(1)] obtain x where "x \<in> N" "Name (mem k) e = Some x"
    by blast
  with assms(2) show "\<exists>n. Name (mem k) e = Some n \<and> n \<noteq> c_str eventName" by auto
qed

lemma reachable_unknown_event:
  assumes "reachable (g_ProviderCache, k)" and "p \<in> set g_ProviderCache"
    and "builders_named (mem k) p eventName = []"
  shows "unknown_event (mem k) p eventName"
  unfolding unknown_event_iff
proof
  fix e assume e: "e \<in> set (m_events p)"
  from reachable_unique_event_names [OF assms(1)] assms(2)
  have "unique_event_names (mem k) p" by simp
  then have "None \<notin> Name (mem k) ` set (m_events p)"
    by (simp add: unique_event_names_def)
  with e have "Name (mem k) e \<noteq> None" by (metis imageI)
  then obtain n where n: "Name (mem k) e = Some n" by auto
  from assms(3) e have "Name (mem k) e \<noteq> Some (c_str eventName)"
    by (auto simp: builders_named_def filter_empty_conv)
  with n show "\<exists>n. Name (mem k) e = Some n \<and> n \<noteq> c_str eventName" by simp
qed

text \<open>Equations for running the model on concrete inputs.\<close>

lemma le_bytes_2: "le_bytes 2 v = [char_of v, char_of (v div 256)]"
  by (simp add: numeral_2_eq_2)

lemma le_bytes_8:
  "le_bytes 8 v =
     [char_of v, char_of (v div 256), char_of (v div 256 div 256),
      char_of (v div 256 div 256 div 256), char_of (v div 256 div 256 div 256 div 256),
      char_of (v div 256 div 256 div 256 div 256 div 256),
      char_of (v div 256 div 256 div 256 div 256 div 256 div 256),
      char_of (v div 256 div 256 div 256 div 256 div 256 div 256 div 256)]"
proof -
  have "(8::nat) = Suc (Suc (Suc (Suc (Suc (Suc (Suc (Suc 0)))))))" by simp
  then show ?thesis by (simp only: le_bytes.simps)
qed

lemmas model_defs =
  EtwTrace_def EtwTrace_emit_def FindProvider_def KeGetCurrentIrql_def granting_kernel_def
  EtwProvider_Initialize_def EtwProvider_new_def EtwRegister_def ExAllocatePoolWithTag_def
  providerMetadataLength_def strlen_def c_str_def memset0_def store_def load_def patch_def
  strcpy_def EtwSetInformation_def EventDataDescCreate_def AddEvent_def FindEvent_def
  EtwProviderEvent_Initialize_def EtwProviderEvent_new_def eventMetadataLength_def
  eventMetadataHeaderLength_def zero_descriptor_def Name_def region_str_def WriteEvent_def
  MetadataDescriptor_def CreateTraceProperty_def SizeOfField_def memcpy_def EtwWrite_def
  CreateEventDescriptor_def fresh_addr_def le_bytes_2 le_bytes_8 Let_def guid_equal_def Guid_def
  guid_0_def guid_1_def

lemma count_distinct_le_one:
  "distinct (map f xs) \<Longrightarrow> length (filter (\<lambda>y. f y = v) xs) \<le> 1"
proof (cases "v \<in> f ` set xs")
  case True
  then obtain x where x: "x \<in> set xs" "v = f x" by blast
  assume "distinct (map f xs)"
  from count_distinct_one [OF this x(1)] x(2) show ?thesis by simp
next
  case False
  then have "filter (\<lambda>y. f y = v) xs = []" by (auto simp: filter_empty_conv)
  then show ?thesis by simp
qed

lemma le_bytes_4:
  "le_bytes 4 v =
     [char_of v, char_of (v div 256), char_of (v div 256 div 256),
      char_of (v div 256 div 256 div 256)]"
proof -
  have "(4::nat) = Suc (Suc (Suc (Suc 0)))" by simp
  then show ?thesis by (simp only: le_bytes.simps)
qed

lemmas blob_defs =
  event_blob_def provider_blob_def serialized_length_def le_bytes_4

section \<open>The claims\<close>

text \<open>
  C1. The total length of an event metadata blob, and the number of bytes allocated
  for it, should be the serialized length of the blob for every event name and field
  list. \<^verbatim>\<open>EtwProviderEvent::Initialize\<close> computes the length in a
  \<^verbatim>\<open>uint16_t\<close>: for an event name of 65533 characters and no fields the
  serialized length is 65537, the length computed is 1, one byte is allocated, and the
  writes that follow run past the block. Whenever the serialized length is below 65536
  the length, the allocation and the blob are exact
  (lemma \<open>EtwProviderEvent_Initialize_granted\<close>).
\<close>

theorem EtwProviderEvent_Initialize_length_wraps:
  "serialized_length (replicate 65533 CHR ''A'') [] = 65537 \<and>
   unat (eventMetadataLength (replicate 65533 CHR ''A'') []) = 1 \<and>
   ExAllocatePoolWithTag 1 (granting_kernel 0 [] STATUS_SUCCESS) =
     (1, (granting_kernel 0 [] STATUS_SUCCESS)\<lparr>mem := [(1, [NUL])], pool_calls := 1\<rparr>) \<and>
   EtwProviderEvent_Initialize EtwProviderEvent_new (replicate 65533 CHR ''A'') []
       (granting_kernel 0 [] STATUS_SUCCESS) = None"
  by (simp add: model_defs serialized_length_def)

text \<open>
  C2. When \<^verbatim>\<open>WriteEvent\<close> returns success for \<open>n\<close> fields, it has called
  \<^verbatim>\<open>EtwWrite\<close> once, with \<open>n + 2\<close> data descriptors. Index 0 holds the provider
  metadata descriptor of the provider. Index 1 holds the event metadata descriptor of
  the first event of the provider whose metadata blob carries the name
  \<open>eventName\<close>, and the blob still carries it after the call. Index \<open>j + 2\<close>
  holds a descriptor of the \<open>j\<close>-th field of the caller's list: it points at a
  block with the bytes the driver takes for that field's value.
\<close>

theorem WriteEvent_descriptor_array:
  assumes "WriteEvent this eventName eventDescriptor args k = Some (STATUS_SUCCESS, k')"
  shows "\<exists>event descs.
           find (\<lambda>e. Name (mem k) e = Some (c_str eventName)) (m_events this) = Some event \<and>
           Name (mem k') event = Some (c_str eventName) \<and>
           etw_written k' = etw_written k @
             [\<lparr>RegHandle = m_regHandle this, EventDescriptor = eventDescriptor,
               UserDataCount = length args + 2, UserData = descs\<rparr>] \<and>
           length descs = length args + 2 \<and>
           descs ! 0 = m_providerMetadataDesc this \<and>
           descs ! 1 = m_eventMetadataDesc event \<and>
           (\<forall>j < length args.
              describes (mem k') (stack_above k (pool_calls k + 1 + j)) (descs ! (j + 2))
                (args ! j))"
proof -
  from WriteEvent_SUCCESS [OF assms] obtain event descs where
    f: "FindEvent this eventName k = Some (Some event)" and
    r: "etw_written k' = etw_written k @
             [\<lparr>RegHandle = m_regHandle this, EventDescriptor = eventDescriptor,
               UserDataCount = length args + 2, UserData = descs\<rparr>]"
       "length descs = length args + 2"
       "descs ! 0 = m_providerMetadataDesc this"
       "descs ! 1 = m_eventMetadataDesc event"
       "\<forall>j < length args.
              describes (mem k') (stack_above k (pool_calls k + 1 + j)) (descs ! (j + 2))
                (args ! j)"
    by blast
  from f have "find (\<lambda>e. Name (mem k) e = Some (c_str eventName)) (m_events this) = Some event"
    unfolding FindEvent_def by (rule FindEvent_loop_find)
  moreover from f have "Name (mem k) event = Some (c_str eventName)"
    unfolding FindEvent_def by (simp add: FindEvent_loop_SomeD)
  with WriteEvent_mem_extends [OF assms] have "Name (mem k') event = Some (c_str eventName)"
    by (rule Name_mem_extends)
  ultimately show ?thesis using r by blast
qed

text \<open>
  An instance: the provider \<^verbatim>\<open>P\<close> with its events \<^verbatim>\<open>F\<close> and \<^verbatim>\<open>E\<close>,
  the caller's string at address 5, and a write of the event \<^verbatim>\<open>E\<close> with three
  fields, a GUID among them.
\<close>

theorem WriteEvent_descriptor_array_witness:
  "let this = \<lparr>m_guid = guid_0, m_regHandle = 1,
                 m_providerMetadataDesc = \<lparr>Ptr = 6, Size = 4, Type = 2\<rparr>,
                 m_events = [\<lparr>m_eventMetadataDesc = \<lparr>Ptr = 7, Size = 5, Type = 1\<rparr>\<rparr>,
                             \<lparr>m_eventMetadataDesc = \<lparr>Ptr = 8, Size = 5, Type = 1\<rparr>\<rparr>]\<rparr>;
       k = (granting_kernel 0 [] STATUS_SUCCESS)
             \<lparr>mem := [(8, event_blob ''E'' []), (7, event_blob ''F'' []), (6, provider_blob ''P''),
                      (5, ''hi'' @ [NUL])],
              pool_calls := 3\<rparr>;
       args = [(''n'', EtwFieldUInt32, 42), (''s'', EtwFieldAnsiString, 5),
               (''g'', EtwFieldGuid, 7)]
   in \<exists>k' event descs.
        WriteEvent this ''E'' (CreateEventDescriptor 1 4) args k = Some (STATUS_SUCCESS, k') \<and>
        find (\<lambda>e. Name (mem k) e = Some (c_str ''E'')) (m_events this) = Some event \<and>
        Name (mem k') event = Some (c_str ''E'') \<and>
        etw_written k' = etw_written k @
          [\<lparr>RegHandle = m_regHandle this, EventDescriptor = CreateEventDescriptor 1 4,
            UserDataCount = length args + 2, UserData = descs\<rparr>] \<and>
        length descs = length args + 2 \<and>
        descs ! 0 = m_providerMetadataDesc this \<and>
        descs ! 1 = m_eventMetadataDesc event \<and>
        (\<forall>j < length args.
           describes (mem k') (stack_above k (pool_calls k + 1 + j)) (descs ! (j + 2))
             (args ! j))"
proof -
  let ?this = "\<lparr>m_guid = guid_0, m_regHandle = 1,
                 m_providerMetadataDesc = \<lparr>Ptr = 6, Size = 4, Type = 2\<rparr>,
                 m_events = [\<lparr>m_eventMetadataDesc = \<lparr>Ptr = 7, Size = 5, Type = 1\<rparr>\<rparr>,
                             \<lparr>m_eventMetadataDesc = \<lparr>Ptr = 8, Size = 5, Type = 1\<rparr>\<rparr>]\<rparr>"
  let ?k = "(granting_kernel 0 [] STATUS_SUCCESS)
             \<lparr>mem := [(8, event_blob ''E'' []), (7, event_blob ''F'' []), (6, provider_blob ''P''),
                      (5, ''hi'' @ [NUL])],
              pool_calls := 3\<rparr>"
  let ?args = "[(''n'', EtwFieldUInt32, 42 :: 64 word), (''s'', EtwFieldAnsiString, 5),
               (''g'', EtwFieldGuid, 7)]"
  let ?k' = "?k\<lparr>mem := [(12, le_bytes 8 7 @ replicate 8 (CHR 0xCC)), (11, ''hi'' @ [NUL]),
                       (10, le_bytes 4 42), (9, replicate 80 NUL),
                       (8, event_blob ''E'' []), (7, event_blob ''F'' []), (6, provider_blob ''P''),
                       (5, ''hi'' @ [NUL])],
               pool_calls := 7,
               etw_written :=
                 [\<lparr>RegHandle = 1, EventDescriptor = CreateEventDescriptor 1 4, UserDataCount = 5,
                   UserData = [\<lparr>Ptr = 6, Size = 4, Type = 2\<rparr>, \<lparr>Ptr = 8, Size = 5, Type = 1\<rparr>,
                               \<lparr>Ptr = 10, Size = 4, Type = 0\<rparr>, \<lparr>Ptr = 11, Size = 3, Type = 0\<rparr>,
                               \<lparr>Ptr = 12, Size = 16, Type = 0\<rparr>]\<rparr>]\<rparr>"
  have w: "WriteEvent ?this ''E'' (CreateEventDescriptor 1 4) ?args ?k = Some (STATUS_SUCCESS, ?k')"
    by (simp add: model_defs blob_defs)
  show ?thesis
    unfolding Let_def using w WriteEvent_descriptor_array [OF w] by blast
qed

text \<open>
  C3. \<^verbatim>\<open>AddEvent\<close> is idempotent. In a provider whose events have distinct names
  (every reachable provider, see C10), after a call of \<^verbatim>\<open>AddEvent\<close> that returned
  success a second call with the same event name and any field list returns success
  and changes neither the provider nor the kernel, and exactly one event metadata
  builder carries that name.
\<close>

theorem AddEvent_idempotent:
  assumes u: "unique_event_names (mem k) this"
    and a: "AddEvent this eventName args k = Some (STATUS_SUCCESS, p1, k1)"
  shows "AddEvent p1 eventName args' k1 = Some (STATUS_SUCCESS, p1, k1) \<and>
         length (builders_named (mem k1) p1 eventName) = 1"
proof -
  from a obtain e where f: "FindEvent p1 eventName k1 = Some (Some e)"
    using AddEvent_again by blast
  then have 1: "AddEvent p1 eventName args' k1 = Some (STATUS_SUCCESS, p1, k1)"
    by (simp add: AddEvent_def)
  from f have e: "e \<in> set (m_events p1)" "Name (mem k1) e = Some (c_str eventName)"
    by (auto simp: FindEvent_def dest: FindEvent_loop_SomeD)
  from a u have "unique_event_names (mem k1) p1" by (rule AddEvent_unique_event_names)
  then have "distinct (map (Name (mem k1)) (m_events p1))"
    by (simp add: unique_event_names_def)
  from count_distinct_one [OF this e(1)]
  have "length (builders_named (mem k1) p1 eventName) = 1"
    by (simp add: builders_named_def e(2))
  with 1 show ?thesis by simp
qed

theorem AddEvent_idempotent_witness:
  "let p1 = (EtwProvider_new guid_0)
              \<lparr>m_events := [\<lparr>m_eventMetadataDesc = \<lparr>Ptr = 1, Size = 8, Type = 1\<rparr>\<rparr>]\<rparr>;
       k1 = (granting_kernel 0 [] STATUS_SUCCESS)
              \<lparr>mem := [(1, event_blob ''E'' [(''a'', EtwFieldInt32, 1)])], pool_calls := 1\<rparr>
   in AddEvent (EtwProvider_new guid_0) ''E'' [(''a'', EtwFieldInt32, 1)]
          (granting_kernel 0 [] STATUS_SUCCESS) = Some (STATUS_SUCCESS, p1, k1) \<and>
      AddEvent p1 ''E'' [(''b'', EtwFieldAnsiString, 5), (''c'', EtwFieldUInt8, 7)] k1
        = Some (STATUS_SUCCESS, p1, k1) \<and>
      length (builders_named (mem k1) p1 ''E'') = 1"
proof -
  let ?p1 = "(EtwProvider_new guid_0)
              \<lparr>m_events := [\<lparr>m_eventMetadataDesc = \<lparr>Ptr = 1, Size = 8, Type = 1\<rparr>\<rparr>]\<rparr>"
  let ?k1 = "(granting_kernel 0 [] STATUS_SUCCESS)
              \<lparr>mem := [(1, event_blob ''E'' [(''a'', EtwFieldInt32, 1)])], pool_calls := 1\<rparr>"
  have u: "unique_event_names (mem (granting_kernel 0 [] STATUS_SUCCESS)) (EtwProvider_new guid_0)"
    by (simp add: unique_event_names_def EtwProvider_new_def)
  have a: "AddEvent (EtwProvider_new guid_0) ''E'' [(''a'', EtwFieldInt32, 1)]
             (granting_kernel 0 [] STATUS_SUCCESS) = Some (STATUS_SUCCESS, ?p1, ?k1)"
    by (simp add: model_defs blob_defs)
  show ?thesis
    unfolding Let_def using a AddEvent_idempotent [OF u a] by blast
qed

text \<open>
  C4, as the claim states it, fails: a field of type \<^verbatim>\<open>EtwFieldBinary\<close>, which
  \<^verbatim>\<open>SizeOfField\<close> does not handle, has size 0, and \<^verbatim>\<open>EtwTrace\<close> still
  returns success, having passed the descriptor of size 0 that points at the empty
  block 4 to \<^verbatim>\<open>EtwWrite\<close>.
\<close>

theorem unsupported_field_type_counterexample:
  "SizeOfField EtwFieldBinary (AddressOfLocal 7 []) [] = Some 0 \<and>
   EtwTrace ''P'' guid_0 ''E'' 4 1 [(''n'', EtwFieldBinary, 7)]
       ([], granting_kernel 0 [] STATUS_SUCCESS)
     = Some (STATUS_SUCCESS,
         [\<lparr>m_guid = guid_0, m_regHandle = 1,
           m_providerMetadataDesc = \<lparr>Ptr = 1, Size = 4, Type = 2\<rparr>,
           m_events = [\<lparr>m_eventMetadataDesc = \<lparr>Ptr = 2, Size = 8, Type = 1\<rparr>\<rparr>]\<rparr>],
         (granting_kernel 0 [] STATUS_SUCCESS)
           \<lparr>mem := [(4, []), (3, replicate 48 NUL),
                    (2, event_blob ''E'' [(''n'', EtwFieldBinary, 7)]), (1, provider_blob ''P'')],
            pool_calls := 4, etw_registered := [(guid_0, 1)],
            etw_written :=
              [\<lparr>RegHandle = 1, EventDescriptor = CreateEventDescriptor 1 4, UserDataCount = 3,
                UserData = [\<lparr>Ptr = 1, Size = 4, Type = 2\<rparr>, \<lparr>Ptr = 2, Size = 8, Type = 1\<rparr>,
                            \<lparr>Ptr = 4, Size = 0, Type = 0\<rparr>]\<rparr>]\<rparr>)"
  by (simp add: model_defs blob_defs)

text \<open>
  C4, amended. For a field whose type tag, in its low byte, is none of those
  \<^verbatim>\<open>SizeOfField\<close> handles, \<^verbatim>\<open>SizeOfField\<close> returns 0, and the field loop of
  \<^verbatim>\<open>WriteEvent\<close> asks the pool for a block of 0 bytes: when the pool grants it, the
  field gets a descriptor of size 0 with a pointer that is not null and the loop goes
  on to the next field; the loop returns \<^verbatim>\<open>STATUS_UNSUCCESSFUL\<close> only when the pool
  refuses.
\<close>

theorem unsupported_field_type_zero_length:
  assumes "fieldType AND 0x000000FF \<notin> set handled_field_types"
  shows "SizeOfField fieldType fieldValue m = Some 0 \<and>
         WriteEvent_loop ((fieldName, fieldType, v) # args) i dataDescriptors k =
           (if pool_grants k (pool_calls k) 0
            then WriteEvent_loop args (i + 1)
                   (dataDescriptors[i + 2 :=
                      \<lparr>Ptr = fresh_addr (mem k), Size = 0, Type = EVENT_DATA_DESCRIPTOR_TYPE_NONE\<rparr>])
                   (k\<lparr>mem := (fresh_addr (mem k), []) # mem k,
                      pool_calls := Suc (pool_calls k)\<rparr>)
            else Some (None, k\<lparr>pool_calls := Suc (pool_calls k)\<rparr>))"
proof -
  from assms have s: "SizeOfField fieldType p m = Some 0" for p m
    by (simp add: SizeOfField_def handled_field_types_def)
  from assms have t: "fieldType \<noteq> EtwFieldAnsiString"
    by (auto simp: handled_field_types_def)
  have c: "CreateTraceProperty fieldType (AddressOfLocal v s) k =
      (if pool_grants k (pool_calls k) 0
       then Some (\<lparr>Ptr = fresh_addr (mem k), Size = 0, Type = EVENT_DATA_DESCRIPTOR_TYPE_NONE\<rparr>,
                  k\<lparr>mem := (fresh_addr (mem k), []) # mem k, pool_calls := Suc (pool_calls k)\<rparr>)
       else Some (zero_descriptor, k\<lparr>pool_calls := Suc (pool_calls k)\<rparr>))"
    for s
    by (simp add: CreateTraceProperty_def s ExAllocatePoolWithTag_def fresh_addr_not_NULL
        memcpy_def store_def load_def patch_def EventDataDescCreate_def)
  show ?thesis
    using t by (simp add: s c zero_descriptor_def fresh_addr_not_NULL)
qed

theorem unsupported_field_type_zero_length_witness:
  "SizeOfField EtwFieldBinary (AddressOfLocal 7 []) [] = Some 0 \<and>
   WriteEvent_loop [(''n'', EtwFieldBinary, 7)] 0 (replicate 3 zero_descriptor)
       (granting_kernel 0 [] STATUS_SUCCESS) =
     Some (Some ((replicate 3 zero_descriptor)[2 := \<lparr>Ptr = 1, Size = 0, Type = 0\<rparr>]),
           (granting_kernel 0 [] STATUS_SUCCESS)\<lparr>mem := [(1, [])], pool_calls := 1\<rparr>)"
proof -
  have h: "EtwFieldBinary AND 0x000000FF \<notin> set handled_field_types"
    by (simp add: handled_field_types_def)
  show ?thesis
    using unsupported_field_type_zero_length [OF h, where fieldValue = "AddressOfLocal 7 []"
        and m = "[]" and fieldName = "''n''" and v = 7 and args = "[]" and i = 0
        and dataDescriptors = "replicate 3 zero_descriptor"
        and k = "granting_kernel 0 [] STATUS_SUCCESS"]
    by (simp add: granting_kernel_def fresh_addr_def numeral_2_eq_2)
qed

text \<open>
  C5, as the claim states it, fails: the caller's string is the block at address 5,
  and the descriptor \<^verbatim>\<open>EtwTrace\<close> passes to \<^verbatim>\<open>EtwWrite\<close> for the string field
  points at address 9, a block allocated in the call that holds a copy of the string.
\<close>

theorem string_field_counterexample:
  "EtwTrace ''P'' guid_0 ''E'' 4 1 [(''s'', EtwFieldAnsiString, 5)]
       ([], granting_kernel 0 [(5, ''hi'' @ [NUL])] STATUS_SUCCESS)
     = Some (STATUS_SUCCESS,
         [\<lparr>m_guid = guid_0, m_regHandle = 1,
           m_providerMetadataDesc = \<lparr>Ptr = 6, Size = 4, Type = 2\<rparr>,
           m_events = [\<lparr>m_eventMetadataDesc = \<lparr>Ptr = 7, Size = 8, Type = 1\<rparr>\<rparr>]\<rparr>],
         (granting_kernel 0 [(5, ''hi'' @ [NUL])] STATUS_SUCCESS)
           \<lparr>mem := [(9, ''hi'' @ [NUL]), (8, replicate 48 NUL),
                    (7, event_blob ''E'' [(''s'', EtwFieldAnsiString, 5)]),
                    (6, provider_blob ''P''), (5, ''hi'' @ [NUL])],
            pool_calls := 4, etw_registered := [(guid_0, 1)],
            etw_written :=
              [\<lparr>RegHandle = 1, EventDescriptor = CreateEventDescriptor 1 4, UserDataCount = 3,
                UserData = [\<lparr>Ptr = 6, Size = 4, Type = 2\<rparr>, \<lparr>Ptr = 7, Size = 8, Type = 1\<rparr>,
                            \<lparr>Ptr = 9, Size = 3, Type = 0\<rparr>]\<rparr>]\<rparr>)"
  by (simp add: model_defs blob_defs)

text \<open>
  C5, amended. When \<^verbatim>\<open>WriteEvent\<close> returns success, the descriptor of a field of
  type \<^verbatim>\<open>EtwFieldAnsiString\<close> does not point at the caller's string: it points at
  a block that did not exist before the call and that holds a copy of the string with
  its terminator. Strings and other values are treated alike: the descriptor of a field
  whose type, in the low byte of its tag, is an integer, a float, a double or a 32-bit
  boolean points at a block that did not exist before the call and that holds the
  value, in as many bytes as the Field Type Table says. In both cases the size of the
  descriptor is the size of the block.
\<close>

theorem WriteEvent_copies_field:
  assumes w: "WriteEvent this eventName eventDescriptor args k = Some (STATUS_SUCCESS, k')"
    and j: "j < length args"
    and t: "fst (snd (args ! j)) = EtwFieldAnsiString \<or>
            fst (snd (args ! j)) AND 0x000000FF \<in> set fixed_size_types"
  shows "\<exists>c d payload.
           etw_written k' = etw_written k @ [c] \<and> d = UserData c ! (j + 2) \<and>
           Ptr d \<noteq> NULL \<and> Ptr d \<notin> fst ` set (mem k) \<and>
           load (mem k') (Ptr d) = Some payload \<and> Size d = length payload mod 2 ^ 32 \<and>
           Type d = EVENT_DATA_DESCRIPTOR_TYPE_NONE \<and>
           (case args ! j of (fieldName, fieldType, fieldValue) \<Rightarrow>
              if fieldType = EtwFieldAnsiString then
                Ptr d \<noteq> unat fieldValue \<and>
                (\<exists>r. load (mem k') (unat fieldValue) = Some r \<and> payload = c_str r @ [NUL])
              else payload = le_bytes (field_width (fieldType AND 0x000000FF)) (unat fieldValue))"
proof -
  let ?s = "stack_above k (pool_calls k + 1 + j)"
  from WriteEvent_SUCCESS [OF w] obtain event descs where
    wr: "etw_written k' = etw_written k @
             [\<lparr>RegHandle = m_regHandle this, EventDescriptor = eventDescriptor,
               UserDataCount = length args + 2, UserData = descs\<rparr>]"
    and fl: "\<forall>j < length args.
              describes (mem k') (stack_above k (pool_calls k + 1 + j)) (descs ! (j + 2))
                (args ! j) \<and>
              Ptr (descs ! (j + 2)) \<notin> fst ` set (mem k) \<and>
              Ptr (descs ! (j + 2)) \<noteq> NULL \<and>
              (fst (snd (args ! j)) = EtwFieldAnsiString \<longrightarrow>
                 Ptr (descs ! (j + 2)) \<noteq> unat (snd (snd (args ! j))))"
    by blast
  let ?d = "descs ! (j + 2)"
  obtain fieldName fieldType fieldValue where f: "args ! j = (fieldName, fieldType, fieldValue)"
    by (cases "args ! j")
  from fl j have "describes (mem k') ?s ?d (args ! j) \<and> Ptr ?d \<notin> fst ` set (mem k) \<and>
    Ptr ?d \<noteq> NULL \<and>
    (fst (snd (args ! j)) = EtwFieldAnsiString \<longrightarrow> Ptr ?d \<noteq> unat (snd (snd (args ! j))))"
    by blast
  then have d: "describes (mem k') ?s ?d (args ! j)" "Ptr ?d \<notin> fst ` set (mem k)"
    "Ptr ?d \<noteq> NULL"
    "fieldType = EtwFieldAnsiString \<longrightarrow> Ptr ?d \<noteq> unat fieldValue"
    by (simp_all add: f)
  from d(1) obtain payload where p: "field_bytes (mem k') ?s (args ! j) = Some payload"
    and l: "load (mem k') (Ptr ?d) = Some payload" "Size ?d = length payload mod 2 ^ 32"
      "Type ?d = EVENT_DATA_DESCRIPTOR_TYPE_NONE"
    by (auto simp: describes_def split: option.splits)
  let ?t = "fieldType AND 0x000000FF"
  have v: "if fieldType = EtwFieldAnsiString then
             Ptr ?d \<noteq> unat fieldValue \<and>
             (\<exists>r. load (mem k') (unat fieldValue) = Some r \<and> payload = c_str r @ [NUL])
           else payload = le_bytes (field_width ?t) (unat fieldValue)"
  proof (cases "fieldType = EtwFieldAnsiString")
    case True
    with p d(4) show ?thesis
      by (auto simp: f field_bytes_def split: option.splits if_splits)
  next
    case False
    with t have m: "?t \<in> set fixed_size_types" by (simp add: f)
    then have nt: "?t \<noteq> EtwFieldAnsiString" and w8: "field_width ?t \<le> 8"
      by (auto simp: fixed_size_types_def field_width_def)
    from p False nt have "payload = take (field_width ?t) (le_bytes 8 (unat fieldValue) @ ?s)"
      by (auto simp: f field_bytes_def Let_def split: if_splits)
    also from w8 have "\<dots> = le_bytes (field_width ?t) (unat fieldValue)"
      by (simp add: length_le_bytes take_le_bytes)
    finally show ?thesis using False by simp
  qed
  let ?c = "\<lparr>RegHandle = m_regHandle this, EventDescriptor = eventDescriptor,
             UserDataCount = length args + 2, UserData = descs\<rparr>"
  have cs: "case args ! j of (fieldName, fieldType, fieldValue) \<Rightarrow>
              if fieldType = EtwFieldAnsiString then
                Ptr ?d \<noteq> unat fieldValue \<and>
                (\<exists>r. load (mem k') (unat fieldValue) = Some r \<and> payload = c_str r @ [NUL])
              else payload = le_bytes (field_width (fieldType AND 0x000000FF)) (unat fieldValue)"
    unfolding f prod.case by (rule v)
  have c1: "?d = UserData ?c ! (j + 2)" by simp
  from wr c1 d(3) d(2) l cs have
    "etw_written k' = etw_written k @ [?c] \<and> ?d = UserData ?c ! (j + 2) \<and>
     Ptr ?d \<noteq> NULL \<and> Ptr ?d \<notin> fst ` set (mem k) \<and>
     load (mem k') (Ptr ?d) = Some payload \<and> Size ?d = length payload mod 2 ^ 32 \<and>
     Type ?d = EVENT_DATA_DESCRIPTOR_TYPE_NONE \<and>
     (case args ! j of (fieldName, fieldType, fieldValue) \<Rightarrow>
        if fieldType = EtwFieldAnsiString then
          Ptr ?d \<noteq> unat fieldValue \<and>
          (\<exists>r. load (mem k') (unat fieldValue) = Some r \<and> payload = c_str r @ [NUL])
        else payload = le_bytes (field_width (fieldType AND 0x000000FF)) (unat fieldValue))"
    by (intro conjI)
  then show ?thesis
    by (intro exI [of _ ?c] exI [of _ ?d] exI [of _ payload])
qed

text \<open>
  An instance: the write of C2, its string field at index 1 and its integer field at
  index 0. The caller's string is the block at address 5; the descriptor of the string
  field points at the block at address 11. The write has a GUID field as well.
\<close>

theorem WriteEvent_copies_field_witness:
  "let this = \<lparr>m_guid = guid_0, m_regHandle = 1,
                 m_providerMetadataDesc = \<lparr>Ptr = 6, Size = 4, Type = 2\<rparr>,
                 m_events = [\<lparr>m_eventMetadataDesc = \<lparr>Ptr = 7, Size = 5, Type = 1\<rparr>\<rparr>,
                             \<lparr>m_eventMetadataDesc = \<lparr>Ptr = 8, Size = 5, Type = 1\<rparr>\<rparr>]\<rparr>;
       k = (granting_kernel 0 [] STATUS_SUCCESS)
             \<lparr>mem := [(8, event_blob ''E'' []), (7, event_blob ''F'' []), (6, provider_blob ''P''),
                      (5, ''hi'' @ [NUL])],
              pool_calls := 3\<rparr>;
       args = [(''n'', EtwFieldUInt32, 42), (''s'', EtwFieldAnsiString, 5),
               (''g'', EtwFieldGuid, 7)]
   in \<exists>k' c.
        WriteEvent this ''E'' (CreateEventDescriptor 1 4) args k = Some (STATUS_SUCCESS, k') \<and>
        etw_written k' = etw_written k @ [c] \<and>
        fst (snd (args ! 1)) = EtwFieldAnsiString \<and>
        Ptr (UserData c ! (1 + 2)) \<noteq> NULL \<and>
        Ptr (UserData c ! (1 + 2)) \<notin> fst ` set (mem k) \<and>
        Ptr (UserData c ! (1 + 2)) \<noteq> 5 \<and>
        load (mem k') 5 = Some (''hi'' @ [NUL]) \<and>
        load (mem k') (Ptr (UserData c ! (1 + 2))) = Some (''hi'' @ [NUL]) \<and>
        Size (UserData c ! (1 + 2)) = 3 \<and>
        fst (snd (args ! 0)) AND 0x000000FF \<in> set fixed_size_types \<and>
        Ptr (UserData c ! (0 + 2)) \<noteq> NULL \<and>
        Ptr (UserData c ! (0 + 2)) \<notin> fst ` set (mem k) \<and>
        load (mem k') (Ptr (UserData c ! (0 + 2))) = Some (le_bytes 4 42) \<and>
        Size (UserData c ! (0 + 2)) = 4"
proof -
  let ?this = "\<lparr>m_guid = guid_0, m_regHandle = 1,
                 m_providerMetadataDesc = \<lparr>Ptr = 6, Size = 4, Type = 2\<rparr>,
                 m_events = [\<lparr>m_eventMetadataDesc = \<lparr>Ptr = 7, Size = 5, Type = 1\<rparr>\<rparr>,
                             \<lparr>m_eventMetadataDesc = \<lparr>Ptr = 8, Size = 5, Type = 1\<rparr>\<rparr>]\<rparr>"
  let ?k = "(granting_kernel 0 [] STATUS_SUCCESS)
             \<lparr>mem := [(8, event_blob ''E'' []), (7, event_blob ''F'' []), (6, provider_blob ''P''),
                      (5, ''hi'' @ [NUL])],
              pool_calls := 3\<rparr>"
  let ?args = "[(''n'', EtwFieldUInt32, 42 :: 64 word), (''s'', EtwFieldAnsiString, 5),
               (''g'', EtwFieldGuid, 7)]"
  let ?k' = "?k\<lparr>mem := [(12, le_bytes 8 7 @ replicate 8 (CHR 0xCC)), (11, ''hi'' @ [NUL]),
                       (10, le_bytes 4 42), (9, replicate 80 NUL),
                       (8, event_blob ''E'' []), (7, event_blob ''F'' []), (6, provider_blob ''P''),
                       (5, ''hi'' @ [NUL])],
               pool_calls := 7,
               etw_written :=
                 [\<lparr>RegHandle = 1, EventDescriptor = CreateEventDescriptor 1 4, UserDataCount = 5,
                   UserData = [\<lparr>Ptr = 6, Size = 4, Type = 2\<rparr>, \<lparr>Ptr = 8, Size = 5, Type = 1\<rparr>,
                               \<lparr>Ptr = 10, Size = 4, Type = 0\<rparr>, \<lparr>Ptr = 11, Size = 3, Type = 0\<rparr>,
                               \<lparr>Ptr = 12, Size = 16, Type = 0\<rparr>]\<rparr>]\<rparr>"
  have w: "WriteEvent ?this ''E'' (CreateEventDescriptor 1 4) ?args ?k = Some (STATUS_SUCCESS, ?k')"
    by (simp add: model_defs blob_defs)
  let ?c = "\<lparr>RegHandle = 1, EventDescriptor = CreateEventDescriptor 1 4, UserDataCount = 5,
             UserData = [\<lparr>Ptr = 6, Size = 4, Type = 2\<rparr>, \<lparr>Ptr = 8, Size = 5, Type = 1\<rparr>,
                         \<lparr>Ptr = 10, Size = 4, Type = 0\<rparr>, \<lparr>Ptr = 11, Size = 3, Type = 0\<rparr>,
                         \<lparr>Ptr = 12, Size = 16, Type = 0\<rparr>]\<rparr>"
  have c: "etw_written ?k' = etw_written ?k @ [?c]"
    by (simp add: granting_kernel_def)
  have j1: "1 < length ?args" and j0: "0 < length ?args" by simp_all
  have t1: "fst (snd (?args ! 1)) = EtwFieldAnsiString \<or>
            fst (snd (?args ! 1)) AND 0x000000FF \<in> set fixed_size_types"
    by simp
  have t0: "fst (snd (?args ! 0)) = EtwFieldAnsiString \<or>
            fst (snd (?args ! 0)) AND 0x000000FF \<in> set fixed_size_types"
    by (simp add: fixed_size_types_def)
  have m: "load (mem ?k') 5 = Some (''hi'' @ [NUL])"
    by (simp add: load_def)
  have s: "Ptr (UserData ?c ! (1 + 2)) \<noteq> NULL \<and>
        Ptr (UserData ?c ! (1 + 2)) \<notin> fst ` set (mem ?k) \<and>
        Ptr (UserData ?c ! (1 + 2)) \<noteq> 5 \<and>
        load (mem ?k') (Ptr (UserData ?c ! (1 + 2))) = Some (''hi'' @ [NUL]) \<and>
        Size (UserData ?c ! (1 + 2)) = 3"
    using WriteEvent_copies_field [OF w j1 t1]
    by (auto simp: load_def granting_kernel_def c_str_def)
  have i: "Ptr (UserData ?c ! (0 + 2)) \<noteq> NULL \<and>
        Ptr (UserData ?c ! (0 + 2)) \<notin> fst ` set (mem ?k) \<and>
        load (mem ?k') (Ptr (UserData ?c ! (0 + 2))) = Some (le_bytes 4 42) \<and>
        Size (UserData ?c ! (0 + 2)) = 4"
    using WriteEvent_copies_field [OF w j0 t0]
    by (auto simp: load_def granting_kernel_def field_width_def le_bytes_4)
  have f: "fst (snd (?args ! 1)) = EtwFieldAnsiString"
    "fst (snd (?args ! 0)) AND 0x000000FF \<in> set fixed_size_types"
    by (simp_all add: fixed_size_types_def)
  from w c s i m f show ?thesis
    unfolding Let_def by blast
qed

text \<open>
  C6. Called above \<^verbatim>\<open>PASSIVE_LEVEL\<close>, \<^verbatim>\<open>EtwTrace\<close> returns
  \<^verbatim>\<open>STATUS_UNSUCCESSFUL\<close> at once, whatever its arguments: the provider cache and
  the kernel (memory, registrations, written events) are exactly what they were.
\<close>

theorem EtwTrace_above_PASSIVE_LEVEL:
  "KeGetCurrentIrql k > PASSIVE_LEVEL \<Longrightarrow>
   EtwTrace providerName providerGuid eventName eventLevel keyword args (g_ProviderCache, k)
     = Some (STATUS_UNSUCCESSFUL, g_ProviderCache, k)"
  by (simp add: EtwTrace_def)

theorem EtwTrace_above_PASSIVE_LEVEL_witness:
  "KeGetCurrentIrql (granting_kernel 2 [] STATUS_SUCCESS) > PASSIVE_LEVEL \<and>
   EtwTrace ''Contoso'' guid_0 ''UserLogin'' 4 1 [(''UserId'', EtwFieldUInt32, 42)]
       ([], granting_kernel 2 [] STATUS_SUCCESS)
     = Some (STATUS_UNSUCCESSFUL, [], granting_kernel 2 [] STATUS_SUCCESS)"
proof -
  have h: "KeGetCurrentIrql (granting_kernel 2 [] STATUS_SUCCESS) > PASSIVE_LEVEL"
    by (simp add: KeGetCurrentIrql_def granting_kernel_def)
  show ?thesis
    using h EtwTrace_above_PASSIVE_LEVEL [OF h] by simp
qed

text \<open>
  C7. When no provider with the GUID is cached and the initialization of the new
  provider returns a status other than success (the registration status, the
  unsuccessful status of a refused allocation, or the status of the trait
  installation), \<^verbatim>\<open>EtwTrace\<close> returns that status and the provider cache is what
  it was: the new provider is not in it.
\<close>

theorem EtwTrace_Initialize_failure:
  assumes "KeGetCurrentIrql k \<le> PASSIVE_LEVEL"
    and "FindProvider g_ProviderCache providerGuid = None"
    and "EtwProvider_Initialize (EtwProvider_new providerGuid) providerName k = Some (status, p, k')"
    and "status \<noteq> STATUS_SUCCESS"
  shows "EtwTrace providerName providerGuid eventName eventLevel keyword args (g_ProviderCache, k)
           = Some (status, g_ProviderCache, k')"
  using assms by (simp add: EtwTrace_def)

theorem EtwTrace_Initialize_failure_witness:
  "EtwTrace ''Contoso'' guid_0 ''UserLogin'' 4 1 [(''UserId'', EtwFieldUInt32, 42)]
       ([], granting_kernel 0 [] STATUS_UNSUCCESSFUL)
     = Some (STATUS_UNSUCCESSFUL, [], granting_kernel 0 [] STATUS_UNSUCCESSFUL) \<and>
   EtwTrace ''Contoso'' guid_0 ''UserLogin'' 4 1 [(''UserId'', EtwFieldUInt32, 42)]
       ([], (granting_kernel 0 [] STATUS_SUCCESS)\<lparr>pool_grants := (\<lambda>n size. False)\<rparr>)
     = Some (STATUS_UNSUCCESSFUL, [],
             (granting_kernel 0 [] STATUS_SUCCESS)
               \<lparr>pool_grants := (\<lambda>n size. False), pool_calls := 1,
                etw_registered := [(guid_0, 1)]\<rparr>) \<and>
   EtwTrace ''Contoso'' guid_0 ''UserLogin'' 4 1 [(''UserId'', EtwFieldUInt32, 42)]
       ([], (granting_kernel 0 [] STATUS_SUCCESS)
              \<lparr>etw_set_information_result := (\<lambda>h blob. 0xC000000D)\<rparr>)
     = Some (0xC000000D, [],
             (granting_kernel 0 [] STATUS_SUCCESS)
               \<lparr>etw_set_information_result := (\<lambda>h blob. 0xC000000D),
                mem := [(1, [char_of (10::nat), char_of (0::nat), CHR ''C'', CHR ''o'', CHR ''n'',
                             CHR ''t'', CHR ''o'', CHR ''s'', CHR ''o'', NUL])],
                pool_calls := 1, etw_registered := [(guid_0, 1)]\<rparr>)"
proof -
  let ?kr = "granting_kernel 0 [] STATUS_UNSUCCESSFUL"
  let ?ka = "(granting_kernel 0 [] STATUS_SUCCESS)\<lparr>pool_grants := (\<lambda>n size. False)\<rparr>"
  let ?ks = "(granting_kernel 0 [] STATUS_SUCCESS)
               \<lparr>etw_set_information_result := (\<lambda>h blob. 0xC000000D)\<rparr>"
  have irql: "KeGetCurrentIrql ?kr \<le> PASSIVE_LEVEL" "KeGetCurrentIrql ?ka \<le> PASSIVE_LEVEL"
    "KeGetCurrentIrql ?ks \<le> PASSIVE_LEVEL"
    by (simp_all add: KeGetCurrentIrql_def granting_kernel_def)
  have miss: "FindProvider [] guid_0 = None"
    by (simp add: FindProvider_def)
  have registration: "EtwProvider_Initialize (EtwProvider_new guid_0) ''Contoso'' ?kr
             = Some (STATUS_UNSUCCESSFUL, EtwProvider_new guid_0, ?kr)"
    by (simp add: model_defs)
  have allocation: "EtwProvider_Initialize (EtwProvider_new guid_0) ''Contoso'' ?ka
             = Some (STATUS_UNSUCCESSFUL, (EtwProvider_new guid_0)\<lparr>m_regHandle := 1\<rparr>,
                     ?ka\<lparr>pool_calls := 1, etw_registered := [(guid_0, 1)]\<rparr>)"
    by (simp add: model_defs)
  have traits: "EtwProvider_Initialize (EtwProvider_new guid_0) ''Contoso'' ?ks
             = Some (0xC000000D, (EtwProvider_new guid_0)\<lparr>m_regHandle := 1\<rparr>,
                     ?ks\<lparr>mem := [(1, [char_of (10::nat), char_of (0::nat), CHR ''C'', CHR ''o'',
                                        CHR ''n'', CHR ''t'', CHR ''o'', CHR ''s'', CHR ''o'', NUL])],
                         pool_calls := 1, etw_registered := [(guid_0, 1)]\<rparr>)"
    by (simp add: model_defs)
  have ne: "STATUS_UNSUCCESSFUL \<noteq> STATUS_SUCCESS" "(0xC000000D :: NTSTATUS) \<noteq> STATUS_SUCCESS"
    by simp_all
  show ?thesis
    using EtwTrace_Initialize_failure [OF irql(1) miss registration ne(1)]
      EtwTrace_Initialize_failure [OF irql(2) miss allocation ne(1)]
      EtwTrace_Initialize_failure [OF irql(3) miss traits ne(2)]
    by simp
qed

text \<open>
  C8. For a provider none of whose events carries the name \<open>eventName\<close>,
  \<^verbatim>\<open>WriteEvent\<close> returns \<^verbatim>\<open>STATUS_UNSUCCESSFUL\<close> and the kernel is what it was:
  nothing is allocated and \<^verbatim>\<open>EtwWrite\<close> is not called. That is the state of a
  provider for every name that was passed to none of its \<^verbatim>\<open>AddEvent\<close> calls,
  whatever else has happened in the kernel (lemma \<open>provider_history_unknown_event\<close>),
  and of a cached provider in a reachable state for every name that none of its
  builders carries (lemma \<open>reachable_unknown_event\<close>).
\<close>

theorem WriteEvent_unknown_event:
  assumes "unknown_event (mem k) this eventName"
  shows "WriteEvent this eventName eventDescriptor args k = Some (STATUS_UNSUCCESSFUL, k)"
proof -
  from assms have "FindEvent this eventName k = Some None"
    by (simp add: FindEvent_def FindEvent_loop_None_iff unknown_event_iff)
  then show ?thesis by (simp add: WriteEvent_def)
qed

text \<open>
  An instance: two providers share the kernel. After a trace of the event \<^verbatim>\<open>E\<close> of
  the provider \<^verbatim>\<open>P\<close> and a trace of the event \<^verbatim>\<open>F\<close> of the provider
  \<^verbatim>\<open>Q\<close>, the event \<^verbatim>\<open>F\<close> is unknown to \<^verbatim>\<open>P\<close>.
\<close>

theorem WriteEvent_unknown_event_witness:
  "let p = \<lparr>m_guid = guid_0, m_regHandle = 1,
              m_providerMetadataDesc = \<lparr>Ptr = 1, Size = 4, Type = 2\<rparr>,
              m_events = [\<lparr>m_eventMetadataDesc = \<lparr>Ptr = 2, Size = 5, Type = 1\<rparr>\<rparr>]\<rparr>;
       q = \<lparr>m_guid = guid_1, m_regHandle = 1,
              m_providerMetadataDesc = \<lparr>Ptr = 4, Size = 4, Type = 2\<rparr>,
              m_events = [\<lparr>m_eventMetadataDesc = \<lparr>Ptr = 5, Size = 5, Type = 1\<rparr>\<rparr>]\<rparr>
   in \<exists>k1 k2.
        EtwTrace ''P'' guid_0 ''E'' 4 1 [] ([], granting_kernel 0 [] STATUS_SUCCESS)
          = Some (STATUS_SUCCESS, [p], k1) \<and>
        EtwTrace ''Q'' guid_1 ''F'' 4 1 [] ([p], k1) = Some (STATUS_SUCCESS, [p, q], k2) \<and>
        unknown_event (mem k2) p ''F'' \<and>
        WriteEvent p ''F'' (CreateEventDescriptor 1 4) [(''a'', EtwFieldInt32, 1)] k2
          = Some (STATUS_UNSUCCESSFUL, k2)"
proof -
  let ?k0 = "granting_kernel 0 [] STATUS_SUCCESS"
  let ?p = "\<lparr>m_guid = guid_0, m_regHandle = 1,
              m_providerMetadataDesc = \<lparr>Ptr = 1, Size = 4, Type = 2\<rparr>,
              m_events = [\<lparr>m_eventMetadataDesc = \<lparr>Ptr = 2, Size = 5, Type = 1\<rparr>\<rparr>]\<rparr>"
  let ?q = "\<lparr>m_guid = guid_1, m_regHandle = 1,
              m_providerMetadataDesc = \<lparr>Ptr = 4, Size = 4, Type = 2\<rparr>,
              m_events = [\<lparr>m_eventMetadataDesc = \<lparr>Ptr = 5, Size = 5, Type = 1\<rparr>\<rparr>]\<rparr>"
  let ?c1 = "\<lparr>RegHandle = 1, EventDescriptor = CreateEventDescriptor 1 4, UserDataCount = 2,
              UserData = [\<lparr>Ptr = 1, Size = 4, Type = 2\<rparr>, \<lparr>Ptr = 2, Size = 5, Type = 1\<rparr>]\<rparr>"
  let ?c2 = "\<lparr>RegHandle = 1, EventDescriptor = CreateEventDescriptor 1 4, UserDataCount = 2,
              UserData = [\<lparr>Ptr = 4, Size = 4, Type = 2\<rparr>, \<lparr>Ptr = 5, Size = 5, Type = 1\<rparr>]\<rparr>"
  let ?k1 = "?k0\<lparr>mem := [(3, replicate 32 NUL), (2, event_blob ''E'' []), (1, provider_blob ''P'')],
                pool_calls := 3, etw_registered := [(guid_0, 1)], etw_written := [?c1]\<rparr>"
  let ?k2 = "?k0\<lparr>mem := [(6, replicate 32 NUL), (5, event_blob ''F'' []), (4, provider_blob ''Q''),
                        (3, replicate 32 NUL), (2, event_blob ''E'' []), (1, provider_blob ''P'')],
                pool_calls := 6, etw_registered := [(guid_0, 1), (guid_1, 1)],
                etw_written := [?c1, ?c2]\<rparr>"
  have 1: "EtwTrace ''P'' guid_0 ''E'' 4 1 [] ([], ?k0) = Some (STATUS_SUCCESS, [?p], ?k1)"
    by (simp add: model_defs blob_defs)
  have 2: "EtwTrace ''Q'' guid_1 ''F'' 4 1 [] ([?p], ?k1) = Some (STATUS_SUCCESS, [?p, ?q], ?k2)"
    by (simp add: model_defs blob_defs)
  have u: "unknown_event (mem ?k2) ?p ''F''"
    by (simp add: unknown_event_def model_defs blob_defs)
  show ?thesis
    unfolding Let_def
    using 1 2 u WriteEvent_unknown_event [OF u, of "CreateEventDescriptor 1 4"
        "[(''a'', EtwFieldInt32, 1)]"]
    by blast
qed

text \<open>
  C9. The provider metadata blob should be the total length, in two bytes, followed by
  the provider name and its terminator, with total length the length of the name plus
  3, for every provider name. For the name \<^verbatim>\<open>Contoso\<close> it is: the length 10,
  the name and the terminator, ten bytes in all. But
  \<^verbatim>\<open>EtwProvider::Initialize\<close> computes the length in a \<^verbatim>\<open>uint16_t\<close>: for a
  provider name of 65533 characters it is 0 and not 65536, no byte is allocated, and
  the writes that follow run past the block. Whenever the length is below 65536 the
  blob is exact (lemma \<open>EtwProvider_Initialize_SomeD\<close>).
\<close>

theorem EtwProvider_Initialize_length_wraps:
  "unat (providerMetadataLength ''Contoso'') = 10 \<and>
   EtwProvider_Initialize (EtwProvider_new guid_0) ''Contoso'' (granting_kernel 0 [] STATUS_SUCCESS)
     = Some (STATUS_SUCCESS,
         (EtwProvider_new guid_0)
           \<lparr>m_regHandle := 1, m_providerMetadataDesc := \<lparr>Ptr = 1, Size = 10, Type = 2\<rparr>\<rparr>,
         (granting_kernel 0 [] STATUS_SUCCESS)
           \<lparr>mem := [(1, [char_of (10 :: nat), char_of (0 :: nat), CHR ''C'', CHR ''o'', CHR ''n'',
                         CHR ''t'', CHR ''o'', CHR ''s'', CHR ''o'', NUL])],
            pool_calls := 1, etw_registered := [(guid_0, 1)]\<rparr>) \<and>
   length (c_str (replicate 65533 CHR ''A'')) + 1 + 2 = 65536 \<and>
   unat (providerMetadataLength (replicate 65533 CHR ''A'')) = 0 \<and>
   EtwProvider_Initialize (EtwProvider_new guid_0) (replicate 65533 CHR ''A'')
       (granting_kernel 0 [] STATUS_SUCCESS) = None"
  by (simp add: model_defs)

text \<open>
  C10. In every state the driver can reach (from an empty provider cache, by calls of
  \<^verbatim>\<open>EtwTrace\<close>, which is the only way to \<^verbatim>\<open>AddEvent\<close> and \<^verbatim>\<open>WriteEvent\<close>),
  every event of every cached provider has a name and the names of a provider's
  events are distinct: at most one event metadata builder carries a given name.
\<close>

theorem reachable_event_names_unique:
  assumes "reachable (g_ProviderCache, k)" and "p \<in> set g_ProviderCache"
  shows "unique_event_names (mem k) p \<and> length (builders_named (mem k) p eventName) \<le> 1"
proof -
  from reachable_unique_event_names [OF assms(1)] assms(2)
  have u: "unique_event_names (mem k) p" by simp
  then have "distinct (map (Name (mem k)) (m_events p))"
    by (simp add: unique_event_names_def)
  then have "length (filter (\<lambda>e. Name (mem k) e = Some (c_str eventName)) (m_events p)) \<le> 1"
    by (rule count_distinct_le_one)
  with u show ?thesis by (simp add: builders_named_def)
qed

text \<open>An instance: the state after tracing the events \<^verbatim>\<open>E\<close> and \<^verbatim>\<open>F\<close>.\<close>

theorem reachable_event_names_unique_witness:
  "let p2 = \<lparr>m_guid = guid_0, m_regHandle = 1,
               m_providerMetadataDesc = \<lparr>Ptr = 1, Size = 4, Type = 2\<rparr>,
               m_events = [\<lparr>m_eventMetadataDesc = \<lparr>Ptr = 2, Size = 5, Type = 1\<rparr>\<rparr>,
                           \<lparr>m_eventMetadataDesc = \<lparr>Ptr = 4, Size = 5, Type = 1\<rparr>\<rparr>]\<rparr>;
       m2 = [(5, replicate 32 NUL), (4, event_blob ''F'' []), (3, replicate 32 NUL),
             (2, event_blob ''E'' []), (1, provider_blob ''P'')]
   in unique_event_names m2 p2 \<and> length (builders_named m2 p2 ''E'') \<le> 1"
proof -
  let ?k0 = "granting_kernel 0 [] STATUS_SUCCESS"
  let ?p1 = "\<lparr>m_guid = guid_0, m_regHandle = 1,
               m_providerMetadataDesc = \<lparr>Ptr = 1, Size = 4, Type = 2\<rparr>,
               m_events = [\<lparr>m_eventMetadataDesc = \<lparr>Ptr = 2, Size = 5, Type = 1\<rparr>\<rparr>]\<rparr>"
  let ?p2 = "\<lparr>m_guid = guid_0, m_regHandle = 1,
               m_providerMetadataDesc = \<lparr>Ptr = 1, Size = 4, Type = 2\<rparr>,
               m_events = [\<lparr>m_eventMetadataDesc = \<lparr>Ptr = 2, Size = 5, Type = 1\<rparr>\<rparr>,
                           \<lparr>m_eventMetadataDesc = \<lparr>Ptr = 4, Size = 5, Type = 1\<rparr>\<rparr>]\<rparr>"
  let ?c1 = "\<lparr>RegHandle = 1, EventDescriptor = CreateEventDescriptor 1 4, UserDataCount = 2,
              UserData = [\<lparr>Ptr = 1, Size = 4, Type = 2\<rparr>, \<lparr>Ptr = 2, Size = 5, Type = 1\<rparr>]\<rparr>"
  let ?c2 = "\<lparr>RegHandle = 1, EventDescriptor = CreateEventDescriptor 1 4, UserDataCount = 2,
              UserData = [\<lparr>Ptr = 1, Size = 4, Type = 2\<rparr>, \<lparr>Ptr = 4, Size = 5, Type = 1\<rparr>]\<rparr>"
  let ?k1 = "?k0\<lparr>mem := [(3, replicate 32 NUL), (2, event_blob ''E'' []), (1, provider_blob ''P'')],
                pool_calls := 3, etw_registered := [(guid_0, 1)], etw_written := [?c1]\<rparr>"
  let ?m2 = "[(5, replicate 32 NUL), (4, event_blob ''F'' []), (3, replicate 32 NUL),
              (2, event_blob ''E'' []), (1, provider_blob ''P'')]"
  let ?k2 = "?k0\<lparr>mem := ?m2, pool_calls := 5, etw_registered := [(guid_0, 1)],
                etw_written := [?c1, ?c2]\<rparr>"
  have 1: "EtwTrace ''P'' guid_0 ''E'' 4 1 [] ([], ?k0) = Some (STATUS_SUCCESS, [?p1], ?k1)"
    by (simp add: model_defs blob_defs)
  have 2: "EtwTrace ''P'' guid_0 ''F'' 4 1 [] ([?p1], ?k1) = Some (STATUS_SUCCESS, [?p2], ?k2)"
    by (simp add: model_defs blob_defs)
  have "reachable ([], ?k0)" by (rule reachable.boot)
  then have "reachable ([?p1], ?k1)" using 1 by (rule reachable.emit)
  then have r: "reachable ([?p2], ?k2)" using 2 by (rule reachable.emit)
  have p: "?p2 \<in> set [?p2]" by simp
  have m: "mem ?k2 = ?m2" by (simp add: granting_kernel_def)
  show ?thesis
    unfolding Let_def using reachable_event_names_unique [OF r p, of "''E''"]
    by (simp only: m)
qed

end
